theory Spec2Isabelle
  imports
    Main
    "HOL-Library.Char_ord"
    "HOL-Library.List_Lexorder"
    "HOL-Library.Multiset"
    "HOL-Library.Option_ord"
    "HOL-Library.Product_Lexorder"
begin

section \<open>Values shared by the two programs\<close>

text \<open>
  A Python \<open>str\<close> is modelled by the list of its UTF-8 bytes. The three characters the
  exporter escapes, the blank and the characters \<open>urllib\<close> leaves alone are ASCII, and an
  ASCII byte never occurs inside the encoding of another code point, so replacing and
  quoting byte by byte is what the Python does code point by code point.

  A cell of the \<open>hot100\<close> table holds text or NULL; the connector hands NULL to Python
  as \<open>None\<close> and takes \<open>None\<close> for NULL. A row is stored in the column order of the
  INSERT statement of \<open>billboard_import.py\<close>: song first, artist second.
\<close>

type_synonym path = string

type_synonym sql_value = "string option"

type_synonym row = "sql_value \<times> sql_value"

datatype level = DEBUG | INFO | WARNING | ERROR

text \<open>
  \<open>mysql.connector.Error\<close> and its subclass \<open>IntegrityError\<close>, which carries the
  server's error number (1062 is "duplicate entry").
\<close>

datatype db_error = IntegrityError nat | OtherError

datatype exn =
    AttributeError
  | TypeError
  | KeyError
  | OSError
  | JSONDecodeError
  | DbError db_error
  | PlainException string

text \<open>
  What \<open>json.load\<close> returns. An object keeps its members in the order of the document;
  Python builds a dictionary from them in which the last of several equal keys wins.
  A number is an integer here (a float behaves like one wherever this program looks at it).
\<close>

datatype json =
    JNull
  | JBool bool
  | JNum int
  | JStr string
  | JArr "json list"
  | JObj "(string \<times> json) list"

text \<open>
  One constructor for each logging call of the two programs; the text of an exception that
  a message quotes is left out. A log is the list of calls made, each with its level,
  whatever level the handler was configured to print.
\<close>

datatype message =
    Inserted "json option" "json option"
  | Duplicate_entry_skipped "json option" "json option"
  | Integrity_error
  | Error_inserting_record
  | Error_parsing_JSON_file path
  | Error_processing_file path
  | Processing_file path
  | Processing_completed
  | An_error_occurred
  | Connected
  | Error_connecting
  | Error_creating_table_row sql_value sql_value
  | Error_formatting_template
  | Number_of_rows nat
  | First_row_sample string
  | File_generated path
  | Database_error
  | Traceback

type_synonym log = "(level \<times> message) list"

definition newline :: string where
  "newline = [CHR 0x0A]"

text \<open>\<open>sep.join(parts)\<close>.\<close>

fun str_join :: "string \<Rightarrow> string list \<Rightarrow> string" where
  "str_join sep [] = []"
| "str_join sep [x] = x"
| "str_join sep (x # y # ys) = x @ sep @ str_join sep (y # ys)"

text \<open>\<open>s.replace(old, new)\<close> for a pattern \<open>old\<close> of one character.\<close>

definition str_replace :: "char \<Rightarrow> string \<Rightarrow> string \<Rightarrow> string" where
  "str_replace old new s = concat (map (\<lambda>c. if c = old then new else [c]) s)"

text \<open>What an f-string prints for a value that is a \<open>str\<close> or \<open>None\<close>.\<close>

fun py_str :: "sql_value \<Rightarrow> string" where
  "py_str None = ''None''"
| "py_str (Some s) = s"

section \<open>The exporter: \<open>export_to_html.py\<close>\<close>

subsection \<open>Search sites and search URLs\<close>

record site_info =
  site :: string
  icon :: string
  name :: string

definition SEARCH_SITES :: "(string \<times> site_info) list" where
  "SEARCH_SITES =
     [(''spotify'',
         \<lparr>site = ''open.spotify.com'', icon = ''./spotify.png'', name = ''Spotify''\<rparr>),
      (''apple_music'',
         \<lparr>site = ''music.apple.com'', icon = ''./applemusic.png'', name = ''Apple Music''\<rparr>)]"

text \<open>
  \<open>urllib.parse.quote_plus\<close> of the Python standard library, with its default empty
  \<open>safe\<close> argument: a blank becomes \<open>+\<close>, the letters, the digits and \<open>_.-~\<close> stay, and
  every other byte becomes \<open>%XX\<close> in upper-case hexadecimal.
\<close>

definition always_safe :: "char \<Rightarrow> bool" where
  "always_safe c \<longleftrightarrow>
     c \<in> set (''ABCDEFGHIJKLMNOPQRSTUVWXYZ'' @ ''abcdefghijklmnopqrstuvwxyz''
               @ ''0123456789'' @ ''_.-~'')"

definition hex_digit :: "nat \<Rightarrow> char" where
  "hex_digit n = ''0123456789ABCDEF'' ! (n mod 16)"

definition quote_byte :: "char \<Rightarrow> string" where
  "quote_byte c =
     (if c = CHR '' '' then ''+''
      else if always_safe c then [c]
      else [CHR ''%'', hex_digit (of_char c div 16), hex_digit (of_char c)])"

definition quote_plus :: "string \<Rightarrow> string" where
  "quote_plus s = concat (map quote_byte s)"

text \<open>\<open>urllib.parse.urlencode\<close> of a dictionary of strings, in the dictionary's order.\<close>

definition urlencode :: "(string \<times> string) list \<Rightarrow> string" where
  "urlencode params = str_join ''&'' (map (\<lambda>(k, v). quote_plus k @ ''='' @ quote_plus v) params)"

definition create_search_url :: "site_info \<Rightarrow> string \<Rightarrow> string" where
  "create_search_url site_info query =
     (let base_url = ''https://www.google.com/search'';
          search_query = query @ '' site:'' @ site site_info;
          params = [(''q'', search_query)]
      in base_url @ ''?'' @ urlencode params)"

subsection \<open>Table rows\<close>

text \<open>The chain of three \<open>replace\<close> calls of lines 144 and 145.\<close>

definition replace_chain :: "string \<Rightarrow> string" where
  "replace_chain s =
     str_replace (CHR ''>'') ''&gt;''
       (str_replace (CHR ''<'') ''&lt;''
         (str_replace (CHR ''&'') ''&amp;'' s))"

text \<open>The f-string of lines 154 and 158, for a search URL and the site it belongs to.\<close>

definition link_cell :: "string \<Rightarrow> site_info \<Rightarrow> string" where
  \<open>link_cell url info =
     ''<td><a href="'' @ url @ ''" target="_blank"><img src="'' @ icon info
       @ ''" class="search-icon" alt="'' @ name info @ ''"></a></td>''\<close>

text \<open>
  The body of the \<open>try\<close> of \<open>create_table_row\<close> up to the final \<open>join\<close>: the list
  \<open>parts\<close>. \<open>Inl\<close> is an exception, with the values the local variables \<open>artist\<close> and
  \<open>song\<close> have when it is raised: calling \<open>replace\<close> on \<open>None\<close> raises AttributeError, a
  missing key of \<open>SEARCH_SITES\<close> raises KeyError.
\<close>

definition create_table_row_parts :: "sql_value \<Rightarrow> sql_value \<Rightarrow> (exn \<times> sql_value \<times> sql_value) + string list" where
  "create_table_row_parts artist song =
     (let search_query = py_str artist @ '' '' @ py_str song in
      case artist of
        None \<Rightarrow> Inl (AttributeError, artist, song)
      | Some a \<Rightarrow>
          let artist' = replace_chain a in
          (case song of
             None \<Rightarrow> Inl (AttributeError, Some artist', song)
           | Some s \<Rightarrow>
               let song' = replace_chain s;
                   parts = [''<tr>'', ''<td>'' @ artist' @ ''</td>'', ''<td>'' @ song' @ ''</td>'']
               in (case map_of SEARCH_SITES ''apple_music'' of
                     None \<Rightarrow> Inl (KeyError, Some artist', Some song')
                   | Some apple \<Rightarrow>
                       let apple_url = create_search_url apple search_query;
                           parts = parts @ [link_cell apple_url apple]
                       in (case map_of SEARCH_SITES ''spotify'' of
                             None \<Rightarrow> Inl (KeyError, Some artist', Some song')
                           | Some spotify \<Rightarrow>
                               let spotify_url = create_search_url spotify search_query;
                                   parts = parts @ [link_cell spotify_url spotify];
                                   parts = parts @ [''</tr>'']
                               in Inr parts))))"

definition create_table_row :: "sql_value \<Rightarrow> sql_value \<Rightarrow> string \<times> log" where
  "create_table_row artist song =
     (case create_table_row_parts artist song of
        Inr parts \<Rightarrow> (str_join newline parts, [])
      | Inl (e, artist', song') \<Rightarrow> ('''', [(ERROR, Error_creating_table_row artist' song')]))"

subsection \<open>The document template\<close>

text \<open>
  The template of \<open>get_html_template\<close> as \<open>str.format\<close> reads it: literal text, in which
  the doubled braces of the style sheet stand for single ones, and the one replacement
  field \<open>table_rows\<close>.
\<close>

datatype piece = Literal string | Field string

definition unlines :: "string list \<Rightarrow> string" where
  "unlines ls = concat (map (\<lambda>l. l @ newline) ls)"

definition template_head :: string where
  \<open>template_head =
     newline @ unlines
          [
           ''<!DOCTYPE html>'',
           ''<html>'',
           ''<head>'',
           ''    <meta charset="UTF-8">'',
           ''    <title>Billboard Hot 100 Search Links</title>'',
           ''    <style>'',
           ''        body {'',
           ''            font-family: 'Segoe UI', Tahoma, Geneva, Verdana, sans-serif;'',
           ''            margin: 20px;'',
           ''            background-color: #f5f5f5;'',
           ''        }'',
           ''        .container {'',
           ''            max-width: 1200px;'',
           ''            margin: 0 auto;'',
           ''        }'',
           ''        table {'',
           ''            width: 100%;'',
           ''            border-collapse: collapse;'',
           ''            background-color: white;'',
           ''            box-shadow: 0 1px 3px rgba(0,0,0,0.2);'',
           ''            border-radius: 8px;'',
           ''            overflow: hidden;'',
           ''        }'',
           ''        th {'',
           ''            background-color: #4a90e2;'',
           ''            color: white;'',
           ''            padding: 12px;'',
           ''            text-align: left;'',
           ''        }'',
           ''        td {'',
           ''            padding: 12px;'',
           ''            border-bottom: 1px solid #ddd;'',
           ''        }'',
           ''        tr:hover {'',
           ''            background-color: #f8f9fa;'',
           ''        }'',
           ''        .search-icon {'',
           ''            width: 16px;'',
           ''            height: 16px;'',
           ''            vertical-align: middle;'',
           ''        }'',
           ''        a {'',
           ''            color: #4a90e2;'',
           ''            text-decoration: none;'',
           ''        }'',
           ''        a:hover {'',
           ''            text-decoration: underline;'',
           ''        }'',
           ''    </style>'',
           ''</head>'',
           ''<body>'',
           ''    <div class="container">'',
           ''        <h1>Billboard Hot 100 Search Links</h1>'',
           ''        <table>'',
           ''            <thead>'',
           ''                <tr>'',
           ''                    <th>Artist</th>'',
           ''                    <th>Song</th>'',
           ''                    <th>Apple Music</th>'',
           ''                    <th>Spotify</th>'',
           ''                </tr>'',
           ''            </thead>'',
           ''            <tbody>''] @ ''                ''\<close>

definition template_tail :: string where
  \<open>template_tail =
     newline @ unlines
          [
           ''            </tbody>'',
           ''        </table>'',
           ''    </div>'',
           ''</body>'',
           ''</html>'']\<close>

definition get_html_template :: "piece list" where
  "get_html_template = [Literal template_head, Field ''table_rows'', Literal template_tail]"

text \<open>\<open>template.format(**kwargs)\<close>: a field without a keyword argument raises KeyError.\<close>

fun str_format :: "piece list \<Rightarrow> (string \<times> string) list \<Rightarrow> exn + string" where
  "str_format [] kwargs = Inr []"
| "str_format (Literal s # ps) kwargs =
     (case str_format ps kwargs of Inl e \<Rightarrow> Inl e | Inr r \<Rightarrow> Inr (s @ r))"
| "str_format (Field k # ps) kwargs =
     (case map_of kwargs k of
        None \<Rightarrow> Inl KeyError
      | Some v \<Rightarrow> (case str_format ps kwargs of Inl e \<Rightarrow> Inl e | Inr r \<Rightarrow> Inr (v @ r)))"

subsection \<open>The exporter's \<open>main\<close>\<close>

text \<open>
  What the exporter cannot decide itself: whether the database accepts the connection,
  whether the query fails, whether the output path can be opened for writing, and the
  \<open>--debug\<close> flag.
\<close>

record export_env =
  db_reachable :: bool
  query_fault :: bool
  write_fault :: bool
  debug :: bool

type_synonym fs = "path \<rightharpoonup> string"

text \<open>
  Modelled from the spec: the database's answer to
  \<open>SELECT artist, song FROM hot100 ORDER BY artist, song\<close>, which is not code of this
  repository. The spec has all pairs "ordered lexicographically by artist, then by song";
  the collation is taken to be the order of the bytes, with NULL before every text.
\<close>

definition fetchall :: "row list \<Rightarrow> (sql_value \<times> sql_value) list" where
  "fetchall table = sort (map (\<lambda>(song, artist). (artist, song)) table)"

definition cursor_execute_select :: "export_env \<Rightarrow> row list \<Rightarrow> exn + (sql_value \<times> sql_value) list" where
  "cursor_execute_select env table =
     (if query_fault env then Inl (DbError OtherError) else Inr (fetchall table))"

text \<open>The loop of lines 194 to 198: a row that is the empty string is left out.\<close>

fun generate_rows :: "(sql_value \<times> sql_value) list \<Rightarrow> string list \<times> log" where
  "generate_rows [] = ([], [])"
| "generate_rows ((artist, song) # rest) =
     (let (row, l) = create_table_row artist song;
          (table_rows, ls) = generate_rows rest
      in (if row \<noteq> [] then row # table_rows else table_rows, l @ ls))"

text \<open>
  \<open>Path.write_text\<close>: a path that cannot be opened raises OSError and leaves the file
  system as it is; otherwise the file holds the new text, whatever it held before.
\<close>

definition write_text :: "export_env \<Rightarrow> fs \<Rightarrow> path \<Rightarrow> string \<Rightarrow> exn + fs" where
  "write_text env files output_path content =
     (if write_fault env then Inl OSError else Inr (files(output_path \<mapsto> content)))"

text \<open>The body of the \<open>try\<close> of \<open>main\<close>, lines 185 to 220.\<close>

definition export_try :: "export_env \<Rightarrow> row list \<Rightarrow> path \<Rightarrow> fs \<Rightarrow> (exn \<times> log) + (fs \<times> log)" where
  "export_try env table output files =
     (case cursor_execute_select env table of
        Inl e \<Rightarrow> Inl (e, [])
      | Inr fetched \<Rightarrow>
          let (table_rows, l) = generate_rows fetched in
          if table_rows = [] then Inl (PlainException ''No valid rows were generated'', l)
          else
            let template = get_html_template in
            if template = [] then Inl (PlainException ''HTML template is empty'', l)
            else
              (case str_format template [(''table_rows'', str_join newline table_rows)] of
                 Inl e \<Rightarrow>
                   Inl (e, l @ [(ERROR, Error_formatting_template),
                                (DEBUG, Number_of_rows (length table_rows)),
                                (DEBUG, First_row_sample
                                   (case table_rows of [] \<Rightarrow> ''No rows'' | r # _ \<Rightarrow> r))])
               | Inr html_content \<Rightarrow>
                   (case write_text env files output html_content of
                      Inl e \<Rightarrow> Inl (e, l)
                    | Inr files' \<Rightarrow> Inr (files', l @ [(INFO, File_generated output)]))))"

record export_result =
  exp_exit :: nat
  exp_files :: fs
  exp_log :: log

text \<open>
  \<open>main\<close> of \<open>export_to_html.py\<close>, from the connection on: the table as the database
  holds it, the \<open>--output\<close> path and the file system go in; the exit status, the file
  system and the log come out.
\<close>

definition export_main :: "export_env \<Rightarrow> row list \<Rightarrow> path \<Rightarrow> fs \<Rightarrow> export_result" where
  "export_main env table output files =
     (if \<not> db_reachable env
      then \<lparr>exp_exit = 1, exp_files = files, exp_log = [(ERROR, Error_connecting)]\<rparr>
      else
        (case export_try env table output files of
           Inr (files', l) \<Rightarrow>
             \<lparr>exp_exit = 0, exp_files = files', exp_log = (INFO, Connected) # l\<rparr>
         | Inl (e, l) \<Rightarrow>
             (case e of
                DbError d \<Rightarrow>
                  \<lparr>exp_exit = 1, exp_files = files,
                   exp_log = (INFO, Connected) # l @ [(ERROR, Database_error)]\<rparr>
              | _ \<Rightarrow>
                  \<lparr>exp_exit = 1, exp_files = files,
                   exp_log = (INFO, Connected) # l @ [(ERROR, An_error_occurred)]
                               @ (if debug env then [(DEBUG, Traceback)] else [])\<rparr>)))"

section \<open>The importer: \<open>billboard_import.py\<close>\<close>

subsection \<open>Parsed JSON\<close>

text \<open>\<open>d.get(key)\<close>: \<open>None\<close> is the missing key, which Python reads as \<open>None\<close> too.\<close>

definition dict_get :: "(string \<times> json) list \<Rightarrow> string \<Rightarrow> json option" where
  "dict_get members key = map_of (rev members) key"

text \<open>
  What a \<open>for\<close> loop iterates over: the elements of a list, the keys of a dictionary
  (each once, in the order of their first occurrence), the characters of a string (one
  item for each byte here; the loop of this program stops at the first item of a string,
  so their number does not matter). \<open>None\<close>, a boolean and a number are not iterable.
\<close>

fun py_iter :: "json \<Rightarrow> exn + json list" where
  "py_iter (JArr items) = Inr items"
| "py_iter (JObj members) = Inr (map JStr (rev (remdups (rev (map fst members)))))"
| "py_iter (JStr s) = Inr (map (\<lambda>c. JStr [c]) s)"
| "py_iter _ = Inl TypeError"

subsection \<open>The environment and the connection\<close>

text \<open>What opening and parsing a path gives: \<open>open\<close> or the read fails, the text is not
  JSON, or a value is parsed.\<close>

datatype file_content = Unreadable | Invalid_JSON | Parsed json

text \<open>
  What the importer cannot decide itself: whether the database accepts the connection, what
  each path holds, which paths are directories and what \<open>glob\<close> finds in them, how the
  connector passes a parameter that is neither a \<open>str\<close> nor \<open>None\<close> (\<open>None\<close>: it raises an
  \<open>Error\<close>), which rows the server refuses for a reason of its own, and after which files
  the commit fails.
\<close>

record env =
  connect_ok :: bool
  file_content :: "path \<Rightarrow> file_content"
  is_dir :: "path \<Rightarrow> bool"
  glob_json :: "path \<Rightarrow> path list"
  convert_other :: "json \<Rightarrow> sql_value option"
  insert_fault :: "row \<Rightarrow> db_error option"
  commit_fault :: "path \<Rightarrow> bool"

text \<open>The calls made on the cursor and the connection, in the order they are made.\<close>

datatype db_op = Execute "json option" "json option" | Commit | Rollback

text \<open>
  A connection: the table as committed, the table as the open transaction sees it, and the
  calls made so far.
\<close>

record conn =
  committed :: "row list"
  working :: "row list"
  ops :: "db_op list"

definition connect :: "row list \<Rightarrow> conn" where
  "connect table = \<lparr>committed = table, working = table, ops = []\<rparr>"

fun convert_param :: "env \<Rightarrow> json option \<Rightarrow> sql_value option" where
  "convert_param env None = Some None"
| "convert_param env (Some JNull) = Some None"
| "convert_param env (Some (JStr s)) = Some (Some s)"
| "convert_param env (Some v) = convert_other env v"

text \<open>
  Modelled from the spec: the \<open>hot100\<close> table and its constraint, which are not code of
  this repository. The spec has "a uniqueness constraint spanning both" columns: "no two
  stored rows may share both fields". So an INSERT of a pair the transaction already sees
  fails with the server's error 1062, and any other pair is appended, unless the
  environment refuses it.
\<close>

definition insert_row :: "env \<Rightarrow> row list \<Rightarrow> row \<Rightarrow> db_error + row list" where
  "insert_row env table r =
     (case insert_fault env r of
        Some e \<Rightarrow> Inl e
      | None \<Rightarrow> if r \<in> set table then Inl (IntegrityError 1062) else Inr (table @ [r]))"

text \<open>
  \<open>cursor.execute("INSERT INTO hot100 (song, artist) VALUES (%s, %s)", (song, artist))\<close>:
  the error raised, if any, and the connection after the call. A parameter the connector
  cannot convert raises an \<open>Error\<close> that is not an \<open>IntegrityError\<close>; a statement the
  server refuses leaves the transaction as it was.
\<close>

definition cursor_execute :: "env \<Rightarrow> conn \<Rightarrow> json option \<Rightarrow> json option \<Rightarrow> db_error option \<times> conn" where
  "cursor_execute env c song artist =
     (let c' = c\<lparr>ops := ops c @ [Execute song artist]\<rparr> in
      case (convert_param env song, convert_param env artist) of
        (Some s, Some a) \<Rightarrow>
          (case insert_row env (working c) (s, a) of
             Inl e \<Rightarrow> (Some e, c')
           | Inr table \<Rightarrow> (None, c'\<lparr>working := table\<rparr>))
      | _ \<Rightarrow> (Some OtherError, c'))"

text \<open>
  \<open>connection.commit()\<close> after the file \<open>json_file\<close>, and \<open>connection.rollback()\<close>. A commit
  that fails raises an \<open>Error\<close> and commits nothing.
\<close>

definition connection_commit :: "env \<Rightarrow> path \<Rightarrow> conn \<Rightarrow> db_error option \<times> conn" where
  "connection_commit env json_file c =
     (let c' = c\<lparr>ops := ops c @ [Commit]\<rparr> in
      if commit_fault env json_file then (Some OtherError, c')
      else (None, c'\<lparr>committed := working c\<rparr>))"

definition connection_rollback :: "conn \<Rightarrow> conn" where
  "connection_rollback c = c\<lparr>working := committed c, ops := ops c @ [Rollback]\<rparr>"

subsection \<open>\<open>process_json_file\<close>\<close>

text \<open>
  The loop of lines 49 to 62. The result says whether an exception left the loop: an entry
  that is not a dictionary has no \<open>get\<close>, and the AttributeError is not one of the errors
  the inner \<open>try\<close> catches.
\<close>

fun insert_entries :: "env \<Rightarrow> json list \<Rightarrow> conn \<Rightarrow> exn option \<times> conn \<times> log" where
  "insert_entries env [] c = (None, c, [])"
| "insert_entries env (JObj members # rest) c =
     (let song = dict_get members ''song'';
          artist = dict_get members ''artist'';
          (err, c') = cursor_execute env c song artist;
          line =
            (case err of
               None \<Rightarrow> (DEBUG, Inserted song artist)
             | Some (IntegrityError errno) \<Rightarrow>
                 if errno = 1062
                 then (DEBUG, Duplicate_entry_skipped song artist)
                 else (ERROR, Integrity_error)
             | Some OtherError \<Rightarrow> (ERROR, Error_inserting_record));
          (raised, c'', l) = insert_entries env rest c'
      in (raised, c'', line # l))"
| "insert_entries env (entry # rest) c = (Some AttributeError, c, [])"

definition process_json_file :: "env \<Rightarrow> path \<Rightarrow> conn \<Rightarrow> conn \<times> log" where
  "process_json_file env filepath c =
     (case file_content env filepath of
        Unreadable \<Rightarrow> (c, [(ERROR, Error_processing_file filepath)])
      | Invalid_JSON \<Rightarrow> (c, [(ERROR, Error_parsing_JSON_file filepath)])
      | Parsed data \<Rightarrow>
          (case data of
             JObj members \<Rightarrow>
               (case py_iter (case dict_get members ''data'' of None \<Rightarrow> JArr [] | Some v \<Rightarrow> v) of
                  Inl e \<Rightarrow> (c, [(ERROR, Error_processing_file filepath)])
                | Inr entries \<Rightarrow>
                    (case insert_entries env entries c of
                       (None, c', l) \<Rightarrow> (c', l)
                     | (Some e, c', l) \<Rightarrow> (c', l @ [(ERROR, Error_processing_file filepath)])))
           | _ \<Rightarrow> (c, [(ERROR, Error_processing_file filepath)])))"

subsection \<open>The importer's \<open>main\<close>\<close>

text \<open>Lines 85 to 90: a directory stands for the \<open>*.json\<close> files in it.\<close>

fun expand_files :: "env \<Rightarrow> path list \<Rightarrow> path list" where
  "expand_files env [] = []"
| "expand_files env (file_arg # rest) =
     (if is_dir env file_arg then glob_json env file_arg else [file_arg])
       @ expand_files env rest"

text \<open>
  The loop of lines 98 to 101. The result says whether an exception left the loop; the
  only call in it that can raise is the commit.
\<close>

fun process_files :: "env \<Rightarrow> path list \<Rightarrow> conn \<Rightarrow> exn option \<times> conn \<times> log" where
  "process_files env [] c = (None, c, [])"
| "process_files env (json_file # rest) c =
     (let (c1, l1) = process_json_file env json_file c;
          (err, c2) = connection_commit env json_file c1
      in case err of
           Some e \<Rightarrow> (Some (DbError e), c2, (INFO, Processing_file json_file) # l1)
         | None \<Rightarrow>
             let (raised, c3, l3) = process_files env rest c2
             in (raised, c3, (INFO, Processing_file json_file) # l1 @ l3))"

record import_result =
  imp_exit :: nat
  imp_table :: "row list"
  imp_ops :: "db_op list"
  imp_log :: log

text \<open>
  \<open>main\<close> of \<open>billboard_import.py\<close>: the positional arguments and the table as the
  database holds it go in; the exit status, the table the database holds once the
  connection is closed (what was committed), the calls made and the log come out.
\<close>

definition import_main :: "env \<Rightarrow> path list \<Rightarrow> row list \<Rightarrow> import_result" where
  "import_main env files table =
     (let json_files = expand_files env files in
      if \<not> connect_ok env
      then \<lparr>imp_exit = 1, imp_table = table, imp_ops = [], imp_log = [(ERROR, Error_connecting)]\<rparr>
      else
        let (raised, c, l) = process_files env json_files (connect table);
            (c', l') =
              (case raised of
                 None \<Rightarrow> (c, l @ [(INFO, Processing_completed)])
               | Some e \<Rightarrow> (connection_rollback c, l @ [(ERROR, An_error_occurred)]))
        in \<lparr>imp_exit = 0, imp_table = committed c', imp_ops = ops c',
            imp_log = (INFO, Connected) # l'\<rparr>)"

subsection \<open>What a run of the importer sends to the table\<close>

text \<open>
  The functions of this subsection are read off the loops above; the lemmas below show
  that the loops compute them. \<open>entry_params\<close> are the parameters of the INSERT statements
  the loop of \<open>process_json_file\<close> executes for the items it iterates over: it stops at the
  first item that is not a dictionary. \<open>file_params\<close> are those of a path, and \<open>file_rows\<close>
  the rows they stand for, where the connector can convert both parameters.
\<close>

fun entry_params :: "json list \<Rightarrow> (json option \<times> json option) list" where
  "entry_params [] = []"
| "entry_params (JObj members # rest) =
     (dict_get members ''song'', dict_get members ''artist'') # entry_params rest"
| "entry_params (entry # rest) = []"

definition file_entries :: "file_content \<Rightarrow> json list" where
  "file_entries content =
     (case content of
        Parsed (JObj members) \<Rightarrow>
          (case py_iter (case dict_get members ''data'' of None \<Rightarrow> JArr [] | Some v \<Rightarrow> v) of
             Inl e \<Rightarrow> []
           | Inr entries \<Rightarrow> entries)
      | _ \<Rightarrow> [])"

definition file_params :: "env \<Rightarrow> path \<Rightarrow> (json option \<times> json option) list" where
  "file_params env filepath = entry_params (file_entries (file_content env filepath))"

fun param_rows :: "env \<Rightarrow> (json option \<times> json option) list \<Rightarrow> row list" where
  "param_rows env [] = []"
| "param_rows env ((song, artist) # rest) =
     (case (convert_param env song, convert_param env artist) of
        (Some s, Some a) \<Rightarrow> (s, a) # param_rows env rest
      | _ \<Rightarrow> param_rows env rest)"

definition file_rows :: "env \<Rightarrow> path \<Rightarrow> row list" where
  "file_rows env filepath = param_rows env (file_params env filepath)"

text \<open>The table after an INSERT of a row, whether the server accepts or refuses it.\<close>

definition add_row :: "env \<Rightarrow> row list \<Rightarrow> row \<Rightarrow> row list" where
  "add_row env table r = (case insert_row env table r of Inl e \<Rightarrow> table | Inr table' \<Rightarrow> table')"

section \<open>The behaviour the specification describes\<close>

text \<open>
  The definitions of this section follow the words of the specification, not the code;
  the theorems below compare the two.
\<close>

subsection \<open>Of the exporter\<close>

text \<open>
  Escaping as specified: \<open>&\<close>, \<open><\<close> and \<open>>\<close> become \<open>&amp;\<close>, \<open>&lt;\<close> and \<open>&gt;\<close>, and
  every other character stays as it is.
\<close>

definition escape_char :: "char \<Rightarrow> string" where
  "escape_char c =
     (if c = CHR ''&'' then ''&amp;''
      else if c = CHR ''<'' then ''&lt;''
      else if c = CHR ''>'' then ''&gt;''
      else [c])"

definition html_escape :: "string \<Rightarrow> string" where
  "html_escape s = concat (map escape_char s)"

text \<open>
  A search link as specified: a web search whose query is the literal string
  \<open><artist> <song> site:<domain>\<close>, URL-encoded.
\<close>

definition search_url :: "string \<Rightarrow> string \<Rightarrow> string \<Rightarrow> string" where
  "search_url domain artist song =
     ''https://www.google.com/search?q='' @ quote_plus (artist @ '' '' @ song @ '' site:'' @ domain)"

text \<open>
  Reading a query back from a URL, as the server that receives it does
  (\<open>urllib.parse.unquote_plus\<close>): \<open>+\<close> is a blank and \<open>%XX\<close> is the byte with that
  hexadecimal code. \<open>url_query\<close> is the decoded value of the parameter \<open>q\<close> of a URL that
  has no other parameter.
\<close>

definition hex_value :: "char \<Rightarrow> nat option" where
  "hex_value c = map_of (zip ''0123456789ABCDEF'' [0..<16]) c"

fun unquote_plus :: "string \<Rightarrow> string" where
  "unquote_plus [] = []"
| "unquote_plus (c # rest) =
     (if c = CHR ''+'' then CHR '' '' # unquote_plus rest
      else if c = CHR ''%'' then
        (case rest of
           h # l # rest' \<Rightarrow>
             (case (hex_value h, hex_value l) of
                (Some a, Some b) \<Rightarrow> char_of (16 * a + b) # unquote_plus rest'
              | _ \<Rightarrow> c # unquote_plus rest)
         | _ \<Rightarrow> c # unquote_plus rest)
      else c # unquote_plus rest)"

definition url_query :: "string \<Rightarrow> string option" where
  "url_query url =
     (case dropWhile (\<lambda>c. c \<noteq> CHR ''?'') url of
        q # k # e # encoded \<Rightarrow>
          if [k, e] = ''q='' then Some (unquote_plus encoded) else None
      | _ \<Rightarrow> None)"

text \<open>
  The order of the query as specified, on pairs of artist and song: by artist, and by song
  where the artists are equal.
\<close>

definition artist_song_le :: "sql_value \<times> sql_value \<Rightarrow> sql_value \<times> sql_value \<Rightarrow> bool" where
  "artist_song_le p q \<longleftrightarrow> fst p < fst q \<or> (fst p = fst q \<and> snd p \<le> snd q)"

text \<open>A pair of artist and song neither of which is NULL.\<close>

definition no_null_field :: "sql_value \<times> sql_value \<Rightarrow> bool" where
  "no_null_field p \<longleftrightarrow> fst p \<noteq> None \<and> snd p \<noteq> None"

subsection \<open>Of the importer\<close>

text \<open>
  The input format as specified: a JSON object whose key \<open>data\<close> holds an array of objects
  with optional string keys \<open>song\<close> and \<open>artist\<close>; a missing field is the null marker.
  \<open>chart_pairs\<close> are the pairs of song and artist of such a document, one for each entry
  (no entries where the key \<open>data\<close> is missing), and \<open>None\<close> for a value that is not of
  this format.
\<close>

fun field_text :: "json option \<Rightarrow> sql_value option" where
  "field_text None = Some None"
| "field_text (Some JNull) = Some None"
| "field_text (Some (JStr s)) = Some (Some s)"
| "field_text (Some v) = None"

fun entry_pair :: "json \<Rightarrow> row option" where
  "entry_pair (JObj members) =
     (case (field_text (dict_get members ''song''), field_text (dict_get members ''artist'')) of
        (Some s, Some a) \<Rightarrow> Some (s, a)
      | _ \<Rightarrow> None)"
| "entry_pair v = None"

fun chart_pairs :: "json \<Rightarrow> row list option" where
  "chart_pairs (JObj members) =
     (case dict_get members ''data'' of
        None \<Rightarrow> Some []
      | Some (JArr entries) \<Rightarrow> those (map entry_pair entries)
      | Some v \<Rightarrow> None)"
| "chart_pairs v = None"

text \<open>
  The pairs a path contributes: those of its document, and none where the path cannot be
  read or parsed (such a file is skipped). \<open>well_formed\<close> says that the path, if it
  parses, holds a document of the input format.
\<close>

definition pairs_in :: "file_content \<Rightarrow> row list" where
  "pairs_in content =
     (case content of
        Parsed v \<Rightarrow> (case chart_pairs v of None \<Rightarrow> [] | Some pairs \<Rightarrow> pairs)
      | _ \<Rightarrow> [])"

definition well_formed :: "file_content \<Rightarrow> bool" where
  "well_formed content \<longleftrightarrow> (case content of Parsed v \<Rightarrow> chart_pairs v \<noteq> None | _ \<Rightarrow> True)"

text \<open>
  A path that parses and holds a document of the input format, and the line the
  specification has for an entry whose pair is already stored: the duplicate is skipped and
  reported at the level DEBUG only.
\<close>

definition in_format :: "file_content \<Rightarrow> bool" where
  "in_format content \<longleftrightarrow> (case content of Parsed v \<Rightarrow> chart_pairs v \<noteq> None | _ \<Rightarrow> False)"

definition duplicate_line :: "json option \<times> json option \<Rightarrow> level \<times> message" where
  "duplicate_line p = (DEBUG, Duplicate_entry_skipped (fst p) (snd p))"

subsection \<open>Examples\<close>

text \<open>
  An environment in which nothing fails: the database accepts the connection, the paths
  listed hold what the list says and every other path cannot be read, there are no
  directories, a parameter that is neither a \<open>str\<close> nor \<open>None\<close> is refused by the
  connector, and the server refuses no row and no commit.
\<close>

definition quiet_env :: "(path \<times> file_content) list \<Rightarrow> env" where
  "quiet_env contents =
     \<lparr>connect_ok = True,
      file_content = (\<lambda>p. case map_of contents p of None \<Rightarrow> Unreadable | Some c \<Rightarrow> c),
      is_dir = (\<lambda>p. False),
      glob_json = (\<lambda>p. []),
      convert_other = (\<lambda>v. None),
      insert_fault = (\<lambda>r. None),
      commit_fault = (\<lambda>p. False)\<rparr>"

text \<open>
  Two weekly charts that share a song, the first of which lists one song twice; an
  environment that holds them and a third path that is not JSON; and the same environment
  with a commit that fails after the second chart.
\<close>

definition week1 :: json where
  "week1 = JObj [(''data'', JArr
     [JObj [(''song'', JStr ''Waterloo''), (''artist'', JStr ''Abba'')],
      JObj [(''song'', JStr ''One More Time''), (''artist'', JStr ''Daft Punk'')],
      JObj [(''artist'', JStr ''Abba''), (''song'', JStr ''Waterloo'')]])]"

definition week2 :: json where
  "week2 = JObj [(''data'', JArr
     [JObj [(''song'', JStr ''One More Time''), (''artist'', JStr ''Daft Punk'')],
      JObj [(''song'', JStr ''Dancing Queen''), (''artist'', JStr ''Abba'')]])]"

definition two_weeks :: env where
  "two_weeks =
     quiet_env
       [(''w1.json'', Parsed week1), (''broken.json'', Invalid_JSON), (''w2.json'', Parsed week2)]"

definition failing_commit :: env where
  "failing_commit = two_weeks\<lparr>commit_fault := (\<lambda>p. p = ''w2.json'')\<rparr>"

section \<open>Properties of the exporter\<close>

subsection \<open>Escaping and quoting\<close>

lemma replace_chain_escape: "replace_chain s = html_escape s"
  by (induction s) (auto simp: replace_chain_def str_replace_def escape_char_def html_escape_def)

lemma escape_no_markup: "CHR ''<'' \<notin> set (html_escape s) \<and> CHR ''>'' \<notin> set (html_escape s)"
  by (induction s) (auto simp: html_escape_def escape_char_def)

lemma hex_table: "list_all (\<lambda>k. hex_value (hex_digit k) = Some k) [0..<16]"
  by code_simp

lemma hex_value_digit: "hex_value (hex_digit n) = Some (n mod 16)"
proof -
  have "n mod 16 \<in> set [0..<16]" by simp
  with hex_table have "hex_value (hex_digit (n mod 16)) = Some (n mod 16)"
    unfolding list_all_iff by blast
  then show ?thesis by (simp add: hex_digit_def)
qed

lemma safe_not_special: "always_safe c \<Longrightarrow> c \<noteq> CHR ''+'' \<and> c \<noteq> CHR ''%''"
  by (auto simp: always_safe_def)

lemma unquote_byte: "unquote_plus (quote_byte c @ rest) = c # unquote_plus rest"
proof -
  have "char_of (16 * (of_char c div 16 mod 16) + (of_char c :: nat) mod 16) = c"
  proof -
    have "(of_char c :: nat) < 256" by simp
    then have "(of_char c :: nat) div 16 < 16" by arith
    then have "(of_char c :: nat) div 16 mod 16 = of_char c div 16" by simp
    then have "16 * (of_char c div 16 mod 16) + (of_char c :: nat) mod 16 = of_char c" by simp
    then show ?thesis by simp
  qed
  then show ?thesis
    using safe_not_special [of c]
    by (simp add: quote_byte_def hex_value_digit)
qed

lemma unquote_quote: "unquote_plus (quote_plus s) = s"
  by (induction s) (simp_all add: quote_plus_def unquote_byte)

lemma url_query_search:
  "url_query (search_url domain a s) = Some (a @ '' '' @ s @ '' site:'' @ domain)"
  by (simp add: search_url_def url_query_def unquote_quote)

lemma create_search_url_eq:
  "create_search_url info (a @ '' '' @ s) = search_url (site info) a s"
  by (simp add: create_search_url_def search_url_def urlencode_def quote_plus_def quote_byte_def
      always_safe_def)

text \<open>A search URL has no quotation mark and no angle bracket in it.\<close>

lemma hex_digit_plain:
  "hex_digit n \<noteq> CHR 0x22 \<and> hex_digit n \<noteq> CHR ''<'' \<and> hex_digit n \<noteq> CHR ''>''"
proof -
  have "hex_digit n \<in> set ''0123456789ABCDEF''"
    unfolding hex_digit_def by (rule nth_mem) simp
  then show ?thesis by auto
qed

lemma safe_plain:
  "always_safe c \<Longrightarrow> c \<noteq> CHR 0x22 \<and> c \<noteq> CHR ''<'' \<and> c \<noteq> CHR ''>''"
  by (auto simp: always_safe_def)

lemma quote_byte_plain:
  "CHR 0x22 \<notin> set (quote_byte c) \<and> CHR ''<'' \<notin> set (quote_byte c) \<and> CHR ''>'' \<notin> set (quote_byte c)"
proof (cases "always_safe c")
  case True
  with safe_plain [of c] show ?thesis
    by (auto simp: quote_byte_def)
next
  case False
  with hex_digit_plain [of "of_char c div 16"] hex_digit_plain [of "of_char c"]
  show ?thesis
    by (auto simp: quote_byte_def)
qed

lemma quote_plus_plain:
  "CHR 0x22 \<notin> set (quote_plus s) \<and> CHR ''<'' \<notin> set (quote_plus s) \<and> CHR ''>'' \<notin> set (quote_plus s)"
  using quote_byte_plain by (auto simp: quote_plus_def)

lemma search_url_plain:
  "CHR 0x22 \<notin> set (search_url d a s) \<and> CHR ''<'' \<notin> set (search_url d a s)
   \<and> CHR ''>'' \<notin> set (search_url d a s)"
  using quote_plus_plain [of "a @ '' '' @ s @ '' site:'' @ d"]
  by (simp add: search_url_def)

subsection \<open>Rows\<close>

lemma row_none_artist:
  "create_table_row None song = ([], [(ERROR, Error_creating_table_row None song)])"
  by (simp add: create_table_row_def create_table_row_parts_def)

lemma row_none_song:
  "create_table_row (Some a) None =
     ([], [(ERROR, Error_creating_table_row (Some (replace_chain a)) None)])"
  by (simp add: create_table_row_def create_table_row_parts_def)

lemma parts_rendered:
  "create_table_row_parts (Some a) (Some s) =
     Inr [''<tr>'', ''<td>'' @ replace_chain a @ ''</td>'', ''<td>'' @ replace_chain s @ ''</td>'',
        link_cell (search_url ''music.apple.com'' a s)
          \<lparr>site = ''music.apple.com'', icon = ''./applemusic.png'', name = ''Apple Music''\<rparr>,
        link_cell (search_url ''open.spotify.com'' a s)
          \<lparr>site = ''open.spotify.com'', icon = ''./spotify.png'', name = ''Spotify''\<rparr>,
        ''</tr>'']"
  using create_search_url_eq [of "\<lparr>site = ''music.apple.com'', icon = ''./applemusic.png'', name = ''Apple Music''\<rparr>" a s]
    create_search_url_eq [of "\<lparr>site = ''open.spotify.com'', icon = ''./spotify.png'', name = ''Spotify''\<rparr>" a s]
  by (simp add: create_table_row_parts_def SEARCH_SITES_def)

lemma row_rendered:
  "create_table_row (Some a) (Some s) =
     (str_join newline
       [''<tr>'', ''<td>'' @ replace_chain a @ ''</td>'', ''<td>'' @ replace_chain s @ ''</td>'',
        link_cell (search_url ''music.apple.com'' a s)
          \<lparr>site = ''music.apple.com'', icon = ''./applemusic.png'', name = ''Apple Music''\<rparr>,
        link_cell (search_url ''open.spotify.com'' a s)
          \<lparr>site = ''open.spotify.com'', icon = ''./spotify.png'', name = ''Spotify''\<rparr>,
        ''</tr>''], [])"
  unfolding create_table_row_def parts_rendered by simp

lemma row_rendered_text:
  \<open>fst (create_table_row (Some a) (Some s)) =
     str_join newline
       [''<tr>'', ''<td>'' @ replace_chain a @ ''</td>'', ''<td>'' @ replace_chain s @ ''</td>'',
        ''<td><a href="'' @ search_url ''music.apple.com'' a s
          @ ''" target="_blank"><img src="./applemusic.png" class="search-icon" alt="Apple Music"></a></td>'',
        ''<td><a href="'' @ search_url ''open.spotify.com'' a s
          @ ''" target="_blank"><img src="./spotify.png" class="search-icon" alt="Spotify"></a></td>'',
        ''</tr>'']\<close>
  by (simp add: row_rendered link_cell_def)

lemma row_nonempty: "fst (create_table_row artist song) \<noteq> [] \<longleftrightarrow> no_null_field (artist, song)"
  by (cases artist; cases song)
    (simp_all add: no_null_field_def row_none_artist row_none_song row_rendered)

lemma generate_rows_fst:
  "fst (generate_rows rows) =
     map (\<lambda>(a, s). fst (create_table_row a s)) (filter no_null_field rows)"
proof (induction rows)
  case Nil
  show ?case by simp
next
  case (Cons p rows)
  obtain a s where p: "p = (a, s)" by (cases p)
  show ?case
    using Cons.IH row_nonempty [of a s]
    by (auto simp: p split: prod.splits)
qed

lemma generate_rows_filter:
  "fst (generate_rows rows) = fst (generate_rows (filter no_null_field rows))"
  by (simp add: generate_rows_fst)

subsection \<open>The query and the document\<close>

lemma sorted_fetchall: "sorted_wrt artist_song_le (fetchall table)"
proof -
  have "sorted (fetchall table)" by (simp add: fetchall_def)
  moreover have "\<And>p q :: sql_value \<times> sql_value. p \<le> q \<Longrightarrow> artist_song_le p q"
    by (auto simp: artist_song_le_def less_eq_prod_def)
  ultimately show ?thesis
    by (metis (mono_tags, lifting) sorted_wrt_mono_rel)
qed

lemma set_fetchall: "set (fetchall table) = (\<lambda>(song, artist). (artist, song)) ` set table"
  by (simp add: fetchall_def)

lemma mset_fetchall:
  "mset (fetchall table) = mset (map (\<lambda>(song, artist). (artist, song)) table)"
  by (simp add: fetchall_def)

lemma example_fetch:
  "fetchall [(Some ''One More Time'', Some ''Daft Punk''), (Some ''Dancing Queen'', Some ''Abba'')]
   = [(Some ''Abba'', Some ''Dancing Queen''), (Some ''Daft Punk'', Some ''One More Time'')]"
  unfolding fetchall_def by code_simp

lemma format_template:
  "str_format get_html_template [(''table_rows'', body)] =
     Inr (template_head @ body @ template_tail)"
  by (simp add: get_html_template_def)

lemma export_try_no_rows:
  assumes "fst (generate_rows (fetchall table)) = []" and "\<not> query_fault env"
  shows "export_try env table out files =
    Inl (PlainException ''No valid rows were generated'', snd (generate_rows (fetchall table)))"
  using assms by (simp add: export_try_def cursor_execute_select_def case_prod_beta)

lemma export_try_rows:
  assumes "fst (generate_rows (fetchall table)) \<noteq> []"
    and "\<not> query_fault env" and "\<not> write_fault env"
  shows "export_try env table out files =
    Inr (files(out \<mapsto>
           template_head @ str_join newline (fst (generate_rows (fetchall table))) @ template_tail),
         snd (generate_rows (fetchall table)) @ [(INFO, File_generated out)])"
  using assms
  by (simp add: export_try_def cursor_execute_select_def case_prod_beta format_template
      write_text_def get_html_template_def)

lemma no_rows_fatal:
  assumes "fst (generate_rows (fetchall table)) = []"
  shows "exp_exit (export_main env table out files) = 1
    \<and> exp_files (export_main env table out files) = files"
proof (cases "query_fault env")
  case True
  then show ?thesis
    by (simp add: export_main_def export_try_def cursor_execute_select_def)
next
  case False
  with assms show ?thesis
    by (simp add: export_main_def export_try_no_rows)
qed

lemma all_null_no_rows:
  assumes "\<forall>(song, artist) \<in> set table. song = None \<or> artist = None"
  shows "fst (generate_rows (fetchall table)) = []"
proof -
  have "\<forall>p \<in> set (fetchall table). \<not> no_null_field p"
    using assms by (auto simp: set_fetchall no_null_field_def)
  then show ?thesis
    by (simp add: generate_rows_fst filter_empty_conv)
qed

lemma export_main_ok:
  assumes "db_reachable env" "\<not> query_fault env" "\<not> write_fault env"
    and "filter no_null_field (fetchall table) \<noteq> []"
  shows "exp_exit (export_main env table out files) = 0
    \<and> exp_files (export_main env table out files) out =
      Some (template_head
        @ str_join newline
            (map (\<lambda>(artist, song). fst (create_table_row artist song))
               (filter no_null_field (fetchall table)))
        @ template_tail)"
proof -
  have "fst (generate_rows (fetchall table)) \<noteq> []"
    using assms(4) by (simp add: generate_rows_fst)
  from export_try_rows [OF this assms(2,3), of out files] assms(1)
  show ?thesis
    by (simp add: export_main_def generate_rows_fst)
qed

subsection \<open>The claims about the exporter\<close>

text \<open>
  Claim C3. Whatever the table holds, the query returns its pairs of artist and song
  sorted by artist and, for equal artists, by song; the rows of the document are the
  renderings of those pairs that have no NULL, in that order, and the document written
  is the template around them. For the table with Daft Punk's "One More Time" and Abba's
  "Dancing Queen", Abba's row comes first.
\<close>

theorem export_order:
  "sorted_wrt artist_song_le (fetchall table)
   \<and> mset (fetchall table) = mset (map (\<lambda>(song, artist). (artist, song)) table)
   \<and> sorted_wrt artist_song_le (filter no_null_field (fetchall table))
   \<and> fst (generate_rows (fetchall table)) =
       map (\<lambda>(artist, song). fst (create_table_row artist song))
         (filter no_null_field (fetchall table))
   \<and> (db_reachable env \<and> \<not> query_fault env \<and> \<not> write_fault env
        \<and> filter no_null_field (fetchall table) \<noteq> [] \<longrightarrow>
        exp_exit (export_main env table out files) = 0
      \<and> exp_files (export_main env table out files) out =
          Some (template_head
            @ str_join newline
                (map (\<lambda>(artist, song). fst (create_table_row artist song))
                   (filter no_null_field (fetchall table)))
            @ template_tail))
   \<and> fst (generate_rows (fetchall
          [(Some ''One More Time'', Some ''Daft Punk''), (Some ''Dancing Queen'', Some ''Abba'')])) =
       [fst (create_table_row (Some ''Abba'') (Some ''Dancing Queen'')),
        fst (create_table_row (Some ''Daft Punk'') (Some ''One More Time''))]"
proof -
  have s: "sorted_wrt artist_song_le (fetchall table)"
    by (rule sorted_fetchall)
  then have f: "sorted_wrt artist_song_le (filter no_null_field (fetchall table))"
    by (rule sorted_wrt_filter)
  have e: "fst (generate_rows (fetchall
          [(Some ''One More Time'', Some ''Daft Punk''), (Some ''Dancing Queen'', Some ''Abba'')])) =
       [fst (create_table_row (Some ''Abba'') (Some ''Dancing Queen'')),
        fst (create_table_row (Some ''Daft Punk'') (Some ''One More Time''))]"
    unfolding example_fetch generate_rows_fst by (simp add: no_null_field_def)
  show ?thesis
    using s f e mset_fetchall [of table] generate_rows_fst [of "fetchall table"]
      export_main_ok [of env table out files]
    by blast
qed

theorem export_order_witness:
  "exp_files (export_main
      \<lparr>db_reachable = True, query_fault = False, write_fault = False, debug = False\<rparr>
      [(Some ''One More Time'', Some ''Daft Punk''), (Some ''Dancing Queen'', Some ''Abba'')]
      ''hot100.html'' Map.empty) ''hot100.html'' =
    Some (template_head
      @ str_join newline
          [fst (create_table_row (Some ''Abba'') (Some ''Dancing Queen'')),
           fst (create_table_row (Some ''Daft Punk'') (Some ''One More Time''))]
      @ template_tail)
   \<and> artist_song_le (Some ''Abba'', Some ''Dancing Queen'')
        (Some ''Daft Punk'', Some ''One More Time'')"
proof -
  have a: "artist_song_le (Some ''Abba'', Some ''Dancing Queen'')
      (Some ''Daft Punk'', Some ''One More Time'')"
    unfolding artist_song_le_def by code_simp
  show ?thesis
    using a export_order [of
      "[(Some ''One More Time'', Some ''Daft Punk''), (Some ''Dancing Queen'', Some ''Abba'')]"
      "\<lparr>db_reachable = True, query_fault = False, write_fault = False, debug = False\<rparr>"
      "''hot100.html''" Map.empty]
    unfolding example_fetch by (simp add: no_null_field_def)
qed

text \<open>
  Claim C4. In a rendered row the artist cell and the song cell hold the value with exactly
  \<open>&\<close>, \<open><\<close> and \<open>>\<close> replaced by \<open>&amp;\<close>, \<open>&lt;\<close> and \<open>&gt;\<close> and every other character
  as it is. No \<open><\<close> and no \<open>>\<close> is left in the escaped text, and \<open><script>\<close> in a value
  is \<open>&lt;script&gt;\<close> in the cell.
\<close>

theorem html_escaping:
  "(\<exists>apple spotify.
      fst (create_table_row (Some artist) (Some song)) =
        str_join newline
          [''<tr>'', ''<td>'' @ html_escape artist @ ''</td>'',
           ''<td>'' @ html_escape song @ ''</td>'', apple, spotify, ''</tr>''])
   \<and> CHR ''<'' \<notin> set (html_escape v) \<and> CHR ''>'' \<notin> set (html_escape v)
   \<and> html_escape (x @ ''<script>'' @ y) = html_escape x @ ''&lt;script&gt;'' @ html_escape y"
proof -
  have "\<exists>apple spotify.
      fst (create_table_row (Some artist) (Some song)) =
        str_join newline
          [''<tr>'', ''<td>'' @ html_escape artist @ ''</td>'',
           ''<td>'' @ html_escape song @ ''</td>'', apple, spotify, ''</tr>'']"
    unfolding row_rendered replace_chain_escape fst_conv by blast
  moreover have
    "html_escape (x @ ''<script>'' @ y) = html_escape x @ ''&lt;script&gt;'' @ html_escape y"
    by (simp add: html_escape_def escape_char_def)
  ultimately show ?thesis
    using escape_no_markup [of v] by blast
qed

theorem html_escaping_witness:
  "(\<exists>apple spotify.
      fst (create_table_row (Some ''Simon & Garfunkel'') (Some ''<script>alert(1)</script>'')) =
        str_join newline
          [''<tr>'', ''<td>Simon &amp; Garfunkel</td>'',
           ''<td>&lt;script&gt;alert(1)&lt;/script&gt;</td>'', apple, spotify, ''</tr>''])
   \<and> html_escape ''x<script>'' = ''x&lt;script&gt;''"
  using html_escaping [of "''Simon & Garfunkel''" "''<script>alert(1)</script>''" "[]" "''x''" "[]"]
  by (simp add: html_escape_def escape_char_def)

text \<open>
  Claim C5. A row that is rendered has an artist and a song that are not NULL, and is the
  six lines \<open><tr>\<close>, the artist cell, the song cell, the Apple Music link cell, the Spotify
  link cell and \<open></tr>\<close>, in this order. Each link cell is written out here as the code
  prints it: a \<open>td\<close> holding one \<open>a\<close> element whose \<open>href\<close> is the search URL and whose
  content is the icon of the site. The URL of each link is the web search for the
  URL-encoded string \<open><artist> <song> site:<domain>\<close> of the values as they were before
  escaping: decoding the query of the URL gives that string back. The URL has no quotation
  mark and no angle bracket, so it ends where the attribute ends.
\<close>

theorem search_links:
  assumes \<open>fst (create_table_row artist song) \<noteq> []\<close>
  shows \<open>\<exists>a s apple_url spotify_url.
      artist = Some a \<and> song = Some s
    \<and> fst (create_table_row artist song) =
        str_join newline
          [''<tr>'', ''<td>'' @ replace_chain a @ ''</td>'', ''<td>'' @ replace_chain s @ ''</td>'',
           ''<td><a href="'' @ apple_url
             @ ''" target="_blank"><img src="./applemusic.png" class="search-icon" alt="Apple Music"></a></td>'',
           ''<td><a href="'' @ spotify_url
             @ ''" target="_blank"><img src="./spotify.png" class="search-icon" alt="Spotify"></a></td>'',
           ''</tr>'']
    \<and> apple_url = search_url ''music.apple.com'' a s
    \<and> spotify_url = search_url ''open.spotify.com'' a s
    \<and> url_query apple_url = Some (a @ '' '' @ s @ '' site:'' @ ''music.apple.com'')
    \<and> url_query spotify_url = Some (a @ '' '' @ s @ '' site:'' @ ''open.spotify.com'')
    \<and> CHR 0x22 \<notin> set apple_url \<and> CHR ''<'' \<notin> set apple_url \<and> CHR ''>'' \<notin> set apple_url
    \<and> CHR 0x22 \<notin> set spotify_url \<and> CHR ''<'' \<notin> set spotify_url \<and> CHR ''>'' \<notin> set spotify_url\<close>
proof -
  from assms obtain a s where as: "artist = Some a" "song = Some s"
    by (auto simp: row_nonempty no_null_field_def)
  show ?thesis
    unfolding as
    using row_rendered_text [of a s]
      url_query_search [of "''music.apple.com''" a s]
      url_query_search [of "''open.spotify.com''" a s]
      search_url_plain [of "''music.apple.com''" a s]
      search_url_plain [of "''open.spotify.com''" a s]
    by blast
qed

theorem search_links_witness:
  \<open>fst (create_table_row (Some ''AC/DC'') (Some ''Rock & Roll'')) \<noteq> []
   \<and> fst (create_table_row (Some ''AC/DC'') (Some ''Rock & Roll'')) =
        str_join newline
          [''<tr>'', ''<td>AC/DC</td>'', ''<td>Rock &amp; Roll</td>'',
           ''<td><a href="https://www.google.com/search?q=AC%2FDC+Rock+%26+Roll+site%3Amusic.apple.com" target="_blank"><img src="./applemusic.png" class="search-icon" alt="Apple Music"></a></td>'',
           ''<td><a href="https://www.google.com/search?q=AC%2FDC+Rock+%26+Roll+site%3Aopen.spotify.com" target="_blank"><img src="./spotify.png" class="search-icon" alt="Spotify"></a></td>'',
           ''</tr>'']
   \<and> url_query ''https://www.google.com/search?q=AC%2FDC+Rock+%26+Roll+site%3Amusic.apple.com''
        = Some ''AC/DC Rock & Roll site:music.apple.com''
   \<and> url_query ''https://www.google.com/search?q=AC%2FDC+Rock+%26+Roll+site%3Aopen.spotify.com''
        = Some ''AC/DC Rock & Roll site:open.spotify.com''\<close>
proof -
  have r: "fst (create_table_row (Some ''AC/DC'') (Some ''Rock & Roll'')) \<noteq> []"
    by (simp add: row_nonempty no_null_field_def)
  have q:
    "search_url ''music.apple.com'' ''AC/DC'' ''Rock & Roll'' =
       ''https://www.google.com/search?q=AC%2FDC+Rock+%26+Roll+site%3Amusic.apple.com''"
    "search_url ''open.spotify.com'' ''AC/DC'' ''Rock & Roll'' =
       ''https://www.google.com/search?q=AC%2FDC+Rock+%26+Roll+site%3Aopen.spotify.com''"
    "replace_chain ''AC/DC'' = ''AC/DC''"
    "replace_chain ''Rock & Roll'' = ''Rock &amp; Roll''"
    by code_simp+
  show ?thesis
    using r search_links [OF r] by (auto simp: q)
qed

text \<open>
  Claim C6. When no row is rendered, and so when the table is empty, the exporter exits
  with status 1 and the file system is what it was: nothing is written to the output path.
\<close>

theorem zero_rows_fatal:
  "(fst (generate_rows (fetchall table)) = [] \<longrightarrow>
      exp_exit (export_main env table out files) = 1
    \<and> exp_files (export_main env table out files) = files)
   \<and> exp_exit (export_main env [] out files) = 1
   \<and> exp_files (export_main env [] out files) = files"
proof -
  have "fst (generate_rows (fetchall [])) = []"
    by (simp add: fetchall_def)
  then show ?thesis
    using no_rows_fatal [of "[]" env out files] no_rows_fatal [of table env out files]
    by blast
qed

theorem zero_rows_fatal_witness:
  "fst (generate_rows (fetchall [(Some ''Waterloo'', None)])) = []
   \<and> exp_exit (export_main
        \<lparr>db_reachable = True, query_fault = False, write_fault = False, debug = False\<rparr>
        [(Some ''Waterloo'', None)] ''out.html'' [''out.html'' \<mapsto> ''old'']) = 1
   \<and> exp_files (export_main
        \<lparr>db_reachable = True, query_fault = False, write_fault = False, debug = False\<rparr>
        [(Some ''Waterloo'', None)] ''out.html'' [''out.html'' \<mapsto> ''old''])
       = [''out.html'' \<mapsto> ''old'']"
proof -
  have h: "fst (generate_rows (fetchall [(Some ''Waterloo'', None)])) = []"
    by (simp add: generate_rows_fst fetchall_def no_null_field_def del: generate_rows.simps)
  show ?thesis
    using h zero_rows_fatal [of "[(Some ''Waterloo'', None)]"
        "\<lparr>db_reachable = True, query_fault = False, write_fault = False, debug = False\<rparr>"
        "''out.html''" "[''out.html'' \<mapsto> ''old'']"]
    by blast
qed

text \<open>
  Claim C9. A pair whose artist or song is NULL does not render: \<open>create_table_row\<close>
  returns the empty string and logs one line at the level ERROR, and the loop leaves the
  row out. A table in which every row has a NULL makes the exporter exit with status 1
  and write nothing. Such rows can be stored: an entry without a \<open>song\<close> is inserted with
  a NULL song.
\<close>

theorem null_fields_not_rendered:
  "(artist = None \<or> song = None \<longrightarrow>
      (\<exists>a' s'. create_table_row artist song = ([], [(ERROR, Error_creating_table_row a' s')])))
   \<and> fst (generate_rows rows) = fst (generate_rows (filter no_null_field rows))
   \<and> ((\<forall>(song, artist) \<in> set table. song = None \<or> artist = None) \<longrightarrow>
        exp_exit (export_main env table out files) = 1
      \<and> exp_files (export_main env table out files) = files)
   \<and> (insert_fault ienv (None, Some a) = None \<longrightarrow>
        working (fst (snd (insert_entries ienv [JObj [(''artist'', JStr a)]] (connect []))))
          = [(None, Some a)])"
proof -
  have 1: "artist = None \<or> song = None \<longrightarrow>
      (\<exists>a' s'. create_table_row artist song = ([], [(ERROR, Error_creating_table_row a' s')]))"
    by (cases artist; cases song) (simp_all add: row_none_artist row_none_song)
  have 3: "(\<forall>(song, artist) \<in> set table. song = None \<or> artist = None) \<longrightarrow>
        exp_exit (export_main env table out files) = 1
      \<and> exp_files (export_main env table out files) = files"
    using all_null_no_rows [of table] no_rows_fatal [of table env out files] by blast
  have 4: "insert_fault ienv (None, Some a) = None \<longrightarrow>
        working (fst (snd (insert_entries ienv [JObj [(''artist'', JStr a)]] (connect []))))
          = [(None, Some a)]"
    by (simp add: cursor_execute_def insert_row_def connect_def dict_get_def Let_def)
  from 1 generate_rows_filter [of rows] 3 4 show ?thesis by blast
qed

theorem null_fields_not_rendered_witness:
  "(\<exists>a' s'. create_table_row None (Some ''Waterloo'') =
       ([], [(ERROR, Error_creating_table_row a' s')]))
   \<and> exp_exit (export_main
        \<lparr>db_reachable = True, query_fault = False, write_fault = False, debug = False\<rparr>
        [(None, Some ''Abba''), (Some ''Waterloo'', None)] ''out.html'' Map.empty) = 1
   \<and> working (fst (snd (insert_entries (quiet_env [])
        [JObj [(''artist'', JStr ''Abba'')]] (connect [])))) = [(None, Some ''Abba'')]"
  using null_fields_not_rendered [of None "Some ''Waterloo''" "[]"
      "[(None, Some ''Abba''), (Some ''Waterloo'', None)]"
      "\<lparr>db_reachable = True, query_fault = False, write_fault = False, debug = False\<rparr>"
      "''out.html''" Map.empty "quiet_env []" "''Abba''"]
  by (simp add: quiet_env_def)

section \<open>Properties of the importer\<close>

subsection \<open>What the loops compute\<close>

lemma cursor_execute_conn:
  "committed (snd (cursor_execute env c song artist)) = committed c"
  "ops (snd (cursor_execute env c song artist)) = ops c @ [Execute song artist]"
  "working (snd (cursor_execute env c song artist)) =
     foldl (add_row env) (working c) (param_rows env [(song, artist)])"
  by (simp_all add: cursor_execute_def add_row_def Let_def split: option.splits sum.splits)

lemma insert_entries_conn:
  "committed (fst (snd (insert_entries env entries c))) = committed c
   \<and> ops (fst (snd (insert_entries env entries c))) =
       ops c @ map (\<lambda>(song, artist). Execute song artist) (entry_params entries)
   \<and> working (fst (snd (insert_entries env entries c))) =
       foldl (add_row env) (working c) (param_rows env (entry_params entries))"
proof (induction env entries c rule: insert_entries.induct)
  case (1 env c)
  show ?case by simp
next
  case (2 env members rest c)
  obtain err c' where e: "cursor_execute env c (dict_get members ''song'') (dict_get members ''artist'') = (err, c')"
    by (cases "cursor_execute env c (dict_get members ''song'') (dict_get members ''artist'')")
  from 2 [OF refl refl e [symmetric] refl]
    cursor_execute_conn [of env c "dict_get members ''song''" "dict_get members ''artist''"]
  show ?case
    by (auto simp: e Let_def case_prod_beta split: option.splits)
qed simp_all

lemma process_json_file_conn:
  "committed (fst (process_json_file env filepath c)) = committed c
   \<and> ops (fst (process_json_file env filepath c)) =
       ops c @ map (\<lambda>(song, artist). Execute song artist) (file_params env filepath)
   \<and> working (fst (process_json_file env filepath c)) =
       foldl (add_row env) (working c) (file_rows env filepath)"
proof (cases "file_content env filepath")
  case Unreadable
  then show ?thesis
    by (simp add: process_json_file_def file_rows_def file_params_def file_entries_def)
next
  case Invalid_JSON
  then show ?thesis
    by (simp add: process_json_file_def file_rows_def file_params_def file_entries_def)
next
  case (Parsed data)
  show ?thesis
  proof (cases "\<exists>members entries. data = JObj members
      \<and> py_iter (case dict_get members ''data'' of None \<Rightarrow> JArr [] | Some v \<Rightarrow> v) = Inr entries")
    case True
    then obtain members entries where d: "data = JObj members"
      and i: "py_iter (case dict_get members ''data'' of None \<Rightarrow> JArr [] | Some v \<Rightarrow> v) = Inr entries"
      by blast
    have fe: "file_entries (file_content env filepath) = entries"
      by (simp add: file_entries_def Parsed d i)
    have "fst (process_json_file env filepath c) = fst (snd (insert_entries env entries c))"
      by (simp add: process_json_file_def Parsed d i split: prod.splits option.splits)
    then show ?thesis
      using insert_entries_conn [of env entries c]
      by (simp add: file_rows_def file_params_def fe)
  next
    case False
    then have "fst (process_json_file env filepath c) = c"
      and "file_entries (file_content env filepath) = []"
      by (auto simp: process_json_file_def file_entries_def Parsed split: json.splits sum.splits)
    then show ?thesis
      by (simp add: file_rows_def file_params_def)
  qed
qed

lemma process_files_conn:
  assumes "committed c = working c"
  shows "committed (fst (snd (process_files env fs c))) =
      foldl (add_row env) (working c)
        (concat (map (file_rows env) (takeWhile (\<lambda>f. \<not> commit_fault env f) fs)))"
  using assms
proof (induction fs arbitrary: c)
  case Nil
  then show ?case by simp
next
  case (Cons f fs)
  let ?c1 = "fst (process_json_file env f c)"
  show ?case
  proof (cases "commit_fault env f")
    case True
    then show ?thesis
      using Cons.prems process_json_file_conn [of env f c]
      by (simp add: connection_commit_def case_prod_beta Let_def)
  next
    case False
    let ?c2 = "?c1\<lparr>ops := ops ?c1 @ [Commit], committed := working ?c1\<rparr>"
    have "committed ?c2 = working ?c2" by simp
    from Cons.IH [OF this] False process_json_file_conn [of env f c]
    show ?thesis
      by (simp add: connection_commit_def case_prod_beta Let_def)
  qed
qed

lemma import_table_char:
  "imp_table (import_main env files table) =
     (if connect_ok env
      then foldl (add_row env) table
        (concat (map (file_rows env)
           (takeWhile (\<lambda>f. \<not> commit_fault env f) (expand_files env files))))
      else table)"
proof -
  have "committed (connect table) = working (connect table)"
    by (simp add: connect_def)
  from process_files_conn [OF this, of env "expand_files env files"]
  show ?thesis
    by (simp add: import_main_def Let_def case_prod_beta connection_rollback_def connect_def
        split: option.splits)
qed

lemma import_exit: "imp_exit (import_main env files table) = (if connect_ok env then 0 else 1)"
  by (simp add: import_main_def Let_def case_prod_beta)

lemma process_files_raised:
  "fst (process_files env fs c) = None \<longleftrightarrow> (\<forall>f \<in> set fs. \<not> commit_fault env f)"
  by (induction fs arbitrary: c)
    (auto simp: Let_def case_prod_beta connection_commit_def split: option.splits)

lemma process_files_ops:
  assumes "\<forall>f \<in> set fs. \<not> commit_fault env f"
  shows "ops (fst (snd (process_files env fs c))) =
    ops c @ concat (map (\<lambda>f. map (\<lambda>(song, artist). Execute song artist) (file_params env f)
                                @ [Commit]) fs)"
  using assms
proof (induction fs arbitrary: c)
  case Nil
  show ?case by simp
next
  case (Cons f fs)
  let ?c2 = "snd (connection_commit env f (fst (process_json_file env f c)))"
  from Cons.prems have "\<forall>f \<in> set fs. \<not> commit_fault env f" and "\<not> commit_fault env f"
    by simp_all
  from Cons.IH [OF this(1), of ?c2] this(2) process_json_file_conn [of env f c]
  show ?case
    by (simp add: Let_def case_prod_beta connection_commit_def)
qed

lemma import_ops_no_fault:
  assumes "connect_ok env" and "\<forall>f \<in> set (expand_files env files). \<not> commit_fault env f"
  shows "imp_ops (import_main env files table) =
    concat (map (\<lambda>f. map (\<lambda>(song, artist). Execute song artist) (file_params env f) @ [Commit])
      (expand_files env files))"
proof -
  from assms(2) have "fst (process_files env (expand_files env files) (connect table)) = None"
    by (simp add: process_files_raised)
  with process_files_ops [OF assms(2), of "connect table"] assms(1)
  show ?thesis
    by (simp add: import_main_def Let_def case_prod_beta connect_def)
qed

lemma entry_params_objects:
  "entry_params (map JObj entries) = map (\<lambda>e. (dict_get e ''song'', dict_get e ''artist'')) entries"
  by (induction entries) simp_all

lemma file_params_objects:
  assumes "file_content env g = Parsed (JObj members)"
    and "dict_get members ''data'' = Some (JArr (map JObj entries))"
  shows "file_params env g = map (\<lambda>e. (dict_get e ''song'', dict_get e ''artist'')) entries"
  using assms by (simp add: file_params_def file_entries_def entry_params_objects)

lemma import_commit_fault:
  assumes "connect_ok env" and "expand_files env files = pre @ f # post"
    and "\<forall>p \<in> set pre. \<not> commit_fault env p" and "commit_fault env f"
  shows "imp_table (import_main env files table) =
      committed (fst (snd (process_files env pre (connect table))))
    \<and> last (imp_ops (import_main env files table)) = Rollback
    \<and> imp_exit (import_main env files table) = 0"
proof -
  have c: "committed (connect table) = working (connect table)"
    by (simp add: connect_def)
  have t: "takeWhile (\<lambda>f. \<not> commit_fault env f) (pre @ f # post) = pre"
    "takeWhile (\<lambda>f. \<not> commit_fault env f) pre = pre"
    using assms(3,4) by (simp_all add: takeWhile_append2 takeWhile_eq_all_conv)
  have 1: "imp_table (import_main env files table) =
      committed (fst (snd (process_files env pre (connect table))))"
    unfolding import_table_char process_files_conn [OF c] assms(2) t
    using assms(1) by (simp add: connect_def)
  have "fst (process_files env (expand_files env files) (connect table)) \<noteq> None"
    using assms(2,4) by (simp add: process_files_raised)
  then have 2: "last (imp_ops (import_main env files table)) = Rollback"
    using assms(1)
    by (auto simp: import_main_def Let_def case_prod_beta connection_rollback_def)
  from 1 2 assms(1) show ?thesis by (simp add: import_exit)
qed

subsection \<open>Inserting rows one after the other\<close>

lemma add_row_eq:
  "add_row env t r = (if insert_fault env r = None \<and> r \<notin> set t then t @ [r] else t)"
  by (simp add: add_row_def insert_row_def split: option.splits)

lemma distinct_count_list:
  "distinct xs \<Longrightarrow> count_list xs x = (if x \<in> set xs then 1 else 0)"
  by (induction xs) auto

lemma foldl_add_distinct: "distinct t \<Longrightarrow> distinct (foldl (add_row env) t rs)"
  by (induction rs arbitrary: t) (simp_all add: add_row_eq)

lemma foldl_add_mono: "set t \<subseteq> set (foldl (add_row env) t rs)"
proof (induction rs arbitrary: t)
  case Nil
  show ?case by simp
next
  case (Cons r rs)
  have "set t \<subseteq> set (add_row env t r)" by (auto simp: add_row_eq)
  with Cons.IH [of "add_row env t r"] show ?case by auto
qed

lemma foldl_add_set:
  assumes "\<forall>r. insert_fault env r = None"
  shows "set (foldl (add_row env) t rs) = set t \<union> set rs"
  using assms by (induction rs arbitrary: t) (auto simp: add_row_eq)

lemma foldl_add_noop:
  assumes "\<forall>r \<in> set rs. insert_fault env r \<noteq> None \<or> r \<in> set t"
  shows "foldl (add_row env) t rs = t"
  using assms by (induction rs) (auto simp: add_row_eq)

lemma foldl_add_covered:
  "\<forall>r \<in> set rs. insert_fault env r \<noteq> None \<or> r \<in> set (foldl (add_row env) t rs)"
proof (induction rs arbitrary: t)
  case Nil
  show ?case by simp
next
  case (Cons r rs)
  have "insert_fault env r \<noteq> None \<or> r \<in> set (add_row env t r)"
    by (auto simp: add_row_eq)
  moreover have "set (add_row env t r) \<subseteq> set (foldl (add_row env) (add_row env t r) rs)"
    by (rule foldl_add_mono)
  ultimately show ?case
    using Cons.IH [of "add_row env t r"] by auto
qed

lemma foldl_add_idem:
  "foldl (add_row env) (foldl (add_row env) t rs) rs = foldl (add_row env) t rs"
  by (rule foldl_add_noop) (rule foldl_add_covered)

subsection \<open>Files of the input format\<close>

lemma field_text_convert: "field_text v = Some x \<Longrightarrow> convert_param env v = Some x"
  by (induction v rule: field_text.induct) simp_all

lemma chart_entries_rows:
  "those (map entry_pair entries) = Some pairs \<Longrightarrow> param_rows env (entry_params entries) = pairs"
proof (induction entries arbitrary: pairs)
  case Nil
  then show ?case by simp
next
  case (Cons e entries)
  from Cons.prems obtain p ps where p: "entry_pair e = Some p"
    and ps: "those (map entry_pair entries) = Some ps" and pairs: "pairs = p # ps"
    by (auto split: option.splits)
  from p obtain members where e: "e = JObj members"
    by (cases e) simp_all
  from p obtain s a where s: "field_text (dict_get members ''song'') = Some s"
    and a: "field_text (dict_get members ''artist'') = Some a" and pp: "p = (s, a)"
    by (auto simp: e split: option.splits)
  show ?case
    using Cons.IH [OF ps] field_text_convert [OF s, of env] field_text_convert [OF a, of env]
    by (simp add: e pairs pp)
qed

lemma well_formed_rows:
  assumes "well_formed (file_content env f)"
  shows "file_rows env f = pairs_in (file_content env f)"
proof (cases "file_content env f")
  case Unreadable
  then show ?thesis
    by (simp add: file_rows_def file_params_def file_entries_def pairs_in_def)
next
  case Invalid_JSON
  then show ?thesis
    by (simp add: file_rows_def file_params_def file_entries_def pairs_in_def)
next
  case (Parsed v)
  with assms obtain pairs where c: "chart_pairs v = Some pairs"
    by (auto simp: well_formed_def)
  then obtain members where v: "v = JObj members"
    by (cases v) simp_all
  show ?thesis
  proof (cases "dict_get members ''data''")
    case None
    with c show ?thesis
      by (simp add: file_rows_def file_params_def file_entries_def pairs_in_def Parsed v)
  next
    case (Some d)
    with c obtain entries where d: "d = JArr entries"
      and t: "those (map entry_pair entries) = Some pairs"
      by (cases d) (simp_all add: v)
    show ?thesis
      using chart_entries_rows [OF t, of env] c
      by (simp add: file_rows_def file_params_def file_entries_def pairs_in_def Parsed v Some d)
  qed
qed

subsection \<open>The log\<close>

lemma insert_entries_log:
  "(lv, Duplicate_entry_skipped s a) \<in> set (snd (snd (insert_entries env entries c)))
     \<Longrightarrow> lv = DEBUG"
proof (induction env entries c rule: insert_entries.induct)
  case (2 env members rest c)
  obtain err c' where e: "cursor_execute env c (dict_get members ''song'') (dict_get members ''artist'') = (err, c')"
    by (cases "cursor_execute env c (dict_get members ''song'') (dict_get members ''artist'')")
  from 2 e show ?case
    by (auto simp: Let_def case_prod_beta split: option.splits db_error.splits if_splits)
qed simp_all

lemma process_json_file_log:
  "(lv, Duplicate_entry_skipped s a) \<in> set (snd (process_json_file env f c)) \<Longrightarrow> lv = DEBUG"
  using insert_entries_log [of lv s a env _ c]
  by (auto simp: process_json_file_def case_prod_beta
      split: file_content.splits json.splits sum.splits option.splits)

lemma process_files_log:
  "(lv, Duplicate_entry_skipped s a) \<in> set (snd (snd (process_files env fs c))) \<Longrightarrow> lv = DEBUG"
proof (induction fs arbitrary: c)
  case Nil
  then show ?case by simp
next
  case (Cons f fs)
  then show ?case
    using process_json_file_log [of lv s a env f c]
    by (auto simp: Let_def case_prod_beta split: option.splits)
qed

lemma import_main_log:
  "(lv, Duplicate_entry_skipped s a) \<in> set (imp_log (import_main env files table)) \<Longrightarrow> lv = DEBUG"
  using process_files_log [of lv s a env "expand_files env files" "connect table"]
  by (auto simp: import_main_def Let_def case_prod_beta split: option.splits if_splits)

lemma cursor_execute_covered:
  assumes "\<forall>r \<in> set (param_rows env [(song, artist)]). insert_fault env r \<noteq> None \<or> r \<in> set (working c)"
  shows "fst (cursor_execute env c song artist) \<noteq> None"
  using assms
  by (auto simp: cursor_execute_def insert_row_def Let_def split: option.splits)

lemma insert_entries_no_insert:
  assumes "\<forall>r \<in> set (param_rows env (entry_params entries)).
      insert_fault env r \<noteq> None \<or> r \<in> set (working c)"
  shows "(lv, Inserted s a) \<notin> set (snd (snd (insert_entries env entries c)))"
  using assms
proof (induction env entries c rule: insert_entries.induct)
  case (2 env members rest c)
  let ?song = "dict_get members ''song''" and ?artist = "dict_get members ''artist''"
  obtain err c' where e: "cursor_execute env c ?song ?artist = (err, c')"
    by (cases "cursor_execute env c ?song ?artist")
  have cov: "\<forall>r \<in> set (param_rows env ((?song, ?artist) # entry_params rest)).
      insert_fault env r \<noteq> None \<or> r \<in> set (working c)"
    using "2.prems" by simp
  then have head: "\<forall>r \<in> set (param_rows env [(?song, ?artist)]).
      insert_fault env r \<noteq> None \<or> r \<in> set (working c)"
    and tail: "\<forall>r \<in> set (param_rows env (entry_params rest)).
      insert_fault env r \<noteq> None \<or> r \<in> set (working c)"
    by (auto split: option.splits)
  from cursor_execute_covered [OF head] e have err: "err \<noteq> None" by simp
  have "working c' = working c"
    using cursor_execute_conn(3) [of env c ?song ?artist] foldl_add_noop [OF head] e by simp
  with tail have "\<forall>r \<in> set (param_rows env (entry_params rest)).
      insert_fault env r \<noteq> None \<or> r \<in> set (working c')"
    by simp
  from "2.IH" [OF refl refl e [symmetric] refl refl this] err
  show ?case
    by (auto simp: e Let_def case_prod_beta split: option.splits db_error.splits if_splits)
qed simp_all

lemma process_json_file_no_insert:
  assumes "\<forall>r \<in> set (file_rows env f). insert_fault env r \<noteq> None \<or> r \<in> set (working c)"
  shows "(lv, Inserted s a) \<notin> set (snd (process_json_file env f c))"
proof (cases "\<exists>members entries. file_content env f = Parsed (JObj members)
      \<and> py_iter (case dict_get members ''data'' of None \<Rightarrow> JArr [] | Some v \<Rightarrow> v) = Inr entries")
  case True
  then obtain members entries where d: "file_content env f = Parsed (JObj members)"
    and i: "py_iter (case dict_get members ''data'' of None \<Rightarrow> JArr [] | Some v \<Rightarrow> v) = Inr entries"
    by blast
  have "file_rows env f = param_rows env (entry_params entries)"
    by (simp add: file_rows_def file_params_def file_entries_def d i)
  with assms insert_entries_no_insert [of env entries c lv s a]
  show ?thesis
    by (auto simp: process_json_file_def d i case_prod_beta split: option.splits)
next
  case False
  then show ?thesis
    by (auto simp: process_json_file_def split: file_content.splits json.splits sum.splits)
qed

lemma process_files_no_insert:
  assumes "\<forall>r \<in> set (concat (map (file_rows env) fs)).
      insert_fault env r \<noteq> None \<or> r \<in> set (working c)"
  shows "(lv, Inserted s a) \<notin> set (snd (snd (process_files env fs c)))"
  using assms
proof (induction fs arbitrary: c)
  case Nil
  then show ?case by simp
next
  case (Cons f fs)
  let ?c1 = "fst (process_json_file env f c)"
  from Cons.prems have head: "\<forall>r \<in> set (file_rows env f).
      insert_fault env r \<noteq> None \<or> r \<in> set (working c)"
    and tail: "\<forall>r \<in> set (concat (map (file_rows env) fs)).
      insert_fault env r \<noteq> None \<or> r \<in> set (working c)"
    by auto
  have w: "working ?c1 = working c"
    using process_json_file_conn [of env f c] foldl_add_noop [OF head] by simp
  have "working (snd (connection_commit env f ?c1)) = working c"
    by (simp add: connection_commit_def Let_def w)
  with tail have "\<forall>r \<in> set (concat (map (file_rows env) fs)).
      insert_fault env r \<noteq> None \<or> r \<in> set (working (snd (connection_commit env f ?c1)))"
    by simp
  from Cons.IH [OF this] process_json_file_no_insert [OF head, of lv s a]
  show ?case
    by (auto simp: Let_def case_prod_beta split: option.splits)
qed

lemma import_main_no_insert:
  assumes "\<forall>r \<in> set (concat (map (file_rows env) (expand_files env files))).
      insert_fault env r \<noteq> None \<or> r \<in> set table"
  shows "(lv, Inserted s a) \<notin> set (imp_log (import_main env files table))"
proof -
  have "working (connect table) = table" by (simp add: connect_def)
  with assms process_files_no_insert [of env "expand_files env files" "connect table" lv s a]
  show ?thesis
    by (auto simp: import_main_def Let_def case_prod_beta split: option.splits)
qed

text \<open>A run over files of the input format whose pairs are all stored.\<close>

lemma cursor_execute_duplicate:
  assumes "convert_param env song = Some s" and "convert_param env artist = Some a"
    and "insert_fault env (s, a) = None" and "(s, a) \<in> set (working c)"
  shows "cursor_execute env c song artist =
    (Some (IntegrityError 1062), c\<lparr>ops := ops c @ [Execute song artist]\<rparr>)"
  using assms by (simp add: cursor_execute_def insert_row_def Let_def)

lemma insert_entries_duplicates:
  assumes "those (map entry_pair entries) = Some pairs"
    and "\<forall>r. insert_fault env r = None"
    and "set pairs \<subseteq> set (working c)"
  shows "fst (insert_entries env entries c) = None
    \<and> snd (snd (insert_entries env entries c)) = map duplicate_line (entry_params entries)"
  using assms
proof (induction entries arbitrary: pairs c)
  case Nil
  then show ?case by simp
next
  case (Cons e entries)
  from Cons.prems(1) obtain p ps where p: "entry_pair e = Some p"
    and ps: "those (map entry_pair entries) = Some ps" and pairs: "pairs = p # ps"
    by (auto split: option.splits)
  from p obtain members where e: "e = JObj members"
    by (cases e) simp_all
  let ?song = "dict_get members ''song''" and ?artist = "dict_get members ''artist''"
  from p obtain s a where s: "field_text ?song = Some s"
    and a: "field_text ?artist = Some a" and pp: "p = (s, a)"
    by (auto simp: e split: option.splits)
  let ?c' = "c\<lparr>ops := ops c @ [Execute ?song ?artist]\<rparr>"
  have ex: "cursor_execute env c ?song ?artist = (Some (IntegrityError 1062), ?c')"
    using Cons.prems(2,3) field_text_convert [OF s, of env] field_text_convert [OF a, of env]
    by (intro cursor_execute_duplicate) (auto simp: pairs pp)
  have "set ps \<subseteq> set (working ?c')"
    using Cons.prems(3) by (simp add: pairs)
  from Cons.IH [OF ps Cons.prems(2) this]
  show ?case
    by (simp add: e ex case_prod_beta duplicate_line_def Let_def)
qed

lemma process_json_file_duplicates:
  assumes "in_format (file_content env f)"
    and "\<forall>r. insert_fault env r = None"
    and "set (pairs_in (file_content env f)) \<subseteq> set (working c)"
  shows "snd (process_json_file env f c) = map duplicate_line (file_params env f)"
proof -
  from assms(1) obtain v pairs where v: "file_content env f = Parsed v"
    and c: "chart_pairs v = Some pairs"
    by (auto simp: in_format_def split: file_content.splits)
  from c obtain members where m: "v = JObj members"
    by (cases v) simp_all
  have sub: "set pairs \<subseteq> set (working c)"
    using assms(3) by (simp add: pairs_in_def v c)
  show ?thesis
  proof (cases "dict_get members ''data''")
    case None
    then show ?thesis
      by (simp add: process_json_file_def file_params_def file_entries_def v m)
  next
    case (Some d)
    with c obtain entries where d: "d = JArr entries"
      and t: "those (map entry_pair entries) = Some pairs"
      by (cases d) (simp_all add: m)
    from insert_entries_duplicates [OF t assms(2) sub]
    show ?thesis
      by (simp add: process_json_file_def file_params_def file_entries_def v m Some d
          case_prod_beta)
  qed
qed

lemma in_format_well_formed: "in_format content \<Longrightarrow> well_formed content"
  by (auto simp: in_format_def well_formed_def split: file_content.splits)

lemma process_files_duplicates:
  assumes "\<forall>f \<in> set fs. in_format (file_content env f) \<and> \<not> commit_fault env f"
    and "\<forall>r. insert_fault env r = None"
    and "\<forall>f \<in> set fs. set (pairs_in (file_content env f)) \<subseteq> set (working c)"
  shows "snd (snd (process_files env fs c)) =
    concat (map (\<lambda>f. (INFO, Processing_file f) # map duplicate_line (file_params env f)) fs)"
  using assms
proof (induction fs arbitrary: c)
  case Nil
  show ?case by simp
next
  case (Cons f fs)
  let ?c1 = "fst (process_json_file env f c)"
  let ?c2 = "snd (connection_commit env f ?c1)"
  from Cons.prems have fmt: "in_format (file_content env f)" and ok: "\<not> commit_fault env f"
    and sub: "set (pairs_in (file_content env f)) \<subseteq> set (working c)"
    by simp_all
  have rows: "file_rows env f = pairs_in (file_content env f)"
    using fmt by (simp add: well_formed_rows in_format_well_formed)
  have "\<forall>r \<in> set (file_rows env f). insert_fault env r \<noteq> None \<or> r \<in> set (working c)"
    using sub rows by auto
  from foldl_add_noop [OF this] have "working ?c1 = working c"
    using process_json_file_conn [of env f c] by simp
  then have w: "working ?c2 = working c"
    by (simp add: connection_commit_def Let_def)
  have 1: "\<forall>f \<in> set fs. in_format (file_content env f) \<and> \<not> commit_fault env f"
    using Cons.prems(1) by simp
  have 3: "\<forall>f \<in> set fs. set (pairs_in (file_content env f)) \<subseteq> set (working ?c2)"
    using Cons.prems(3) w by simp
  from Cons.IH [OF 1 Cons.prems(2) 3] process_json_file_duplicates [OF fmt Cons.prems(2) sub] ok
  show ?case
    by (simp add: Let_def case_prod_beta connection_commit_def)
qed

lemma second_run_log:
  assumes "connect_ok env"
    and "\<forall>f \<in> set (expand_files env files).
      in_format (file_content env f) \<and> \<not> commit_fault env f"
    and "\<forall>r. insert_fault env r = None"
  shows "imp_log (import_main env files (imp_table (import_main env files table))) =
    (INFO, Connected)
      # concat (map (\<lambda>f. (INFO, Processing_file f) # map duplicate_line (file_params env f))
          (expand_files env files))
      @ [(INFO, Processing_completed)]"
proof -
  let ?fs = "expand_files env files"
  let ?t1 = "imp_table (import_main env files table)"
  from assms(2) have t: "takeWhile (\<lambda>f. \<not> commit_fault env f) ?fs = ?fs"
    by (simp add: takeWhile_eq_all_conv)
  have rows: "\<forall>f \<in> set ?fs. file_rows env f = pairs_in (file_content env f)"
    using assms(2) by (simp add: well_formed_rows in_format_well_formed)
  have "set ?t1 = set table \<union> (\<Union>f \<in> set ?fs. set (file_rows env f))"
    by (simp add: import_table_char assms(1) t foldl_add_set [OF assms(3)])
  with rows have sub: "\<forall>f \<in> set ?fs.
      set (pairs_in (file_content env f)) \<subseteq> set (working (connect ?t1))"
    by (auto simp: connect_def)
  have "fst (process_files env ?fs (connect ?t1)) = None"
    using assms(2) by (simp add: process_files_raised)
  with process_files_duplicates [OF assms(2,3) sub] assms(1)
  show ?thesis
    by (simp add: import_main_def Let_def case_prod_beta)
qed

lemma chart_entries_length:
  "those (map entry_pair entries) = Some pairs \<Longrightarrow> length (entry_params entries) = length pairs"
proof (induction entries arbitrary: pairs)
  case Nil
  then show ?case by simp
next
  case (Cons e entries)
  from Cons.prems obtain p ps where p: "entry_pair e = Some p"
    and ps: "those (map entry_pair entries) = Some ps" and pairs: "pairs = p # ps"
    by (auto split: option.splits)
  from p obtain members where e: "e = JObj members"
    by (cases e) simp_all
  from Cons.IH [OF ps] show ?case
    by (simp add: e pairs)
qed

lemma in_format_length:
  assumes "in_format (file_content env f)"
  shows "length (file_params env f) = length (pairs_in (file_content env f))"
proof -
  from assms obtain v pairs where v: "file_content env f = Parsed v"
    and c: "chart_pairs v = Some pairs"
    by (auto simp: in_format_def split: file_content.splits)
  from c obtain members where m: "v = JObj members"
    by (cases v) simp_all
  show ?thesis
  proof (cases "dict_get members ''data''")
    case None
    with c show ?thesis
      by (simp add: file_params_def file_entries_def pairs_in_def v m)
  next
    case (Some d)
    with c obtain entries where d: "d = JArr entries"
      and t: "those (map entry_pair entries) = Some pairs"
      by (cases d) (simp_all add: m)
    from chart_entries_length [OF t] c show ?thesis
      by (simp add: file_params_def file_entries_def pairs_in_def v m Some d)
  qed
qed

lemma duplicate_lines_no_error:
  "(ERROR, m) \<notin> set
     ((INFO, Connected)
        # concat (map (\<lambda>f. (INFO, Processing_file f) # map duplicate_line (file_params env f)) fs)
        @ [(INFO, Processing_completed)])"
  by (auto simp: duplicate_line_def)

subsection \<open>Files that are skipped\<close>

lemma expand_files_append:
  "expand_files env (xs @ ys) = expand_files env xs @ expand_files env ys"
  by (induction xs) simp_all

lemma skipped_file_rows:
  assumes "file_rows env bad = []" and "\<not> commit_fault env bad"
  shows "concat (map (file_rows env) (takeWhile (\<lambda>f. \<not> commit_fault env f) (xs @ bad # ys))) =
    concat (map (file_rows env) (takeWhile (\<lambda>f. \<not> commit_fault env f) (xs @ ys)))"
  using assms by (induction xs) simp_all

lemma skipped_file_table:
  assumes "file_rows env bad = []" and "\<not> is_dir env bad" and "\<not> commit_fault env bad"
  shows "imp_table (import_main env (pre @ bad # post) table) =
    imp_table (import_main env (pre @ post) table)"
proof -
  have "expand_files env (pre @ bad # post) = expand_files env pre @ bad # expand_files env post"
    using assms(2) by (simp add: expand_files_append)
  then show ?thesis
    using skipped_file_rows [OF assms(1,3), of "expand_files env pre" "expand_files env post"]
    by (simp add: import_table_char expand_files_append)
qed

lemma process_files_reaches:
  assumes "\<forall>f \<in> set xs. \<not> commit_fault env f"
  shows "\<exists>c'. set (snd (snd (process_files env ys c')))
    \<subseteq> set (snd (snd (process_files env (xs @ ys) c)))"
  using assms
proof (induction xs arbitrary: c)
  case Nil
  show ?case by auto
next
  case (Cons x xs)
  let ?c2 = "snd (connection_commit env x (fst (process_json_file env x c)))"
  from Cons.prems have "\<forall>f \<in> set xs. \<not> commit_fault env f" by simp
  from Cons.IH [OF this, of ?c2] obtain c' where
    "set (snd (snd (process_files env ys c'))) \<subseteq> set (snd (snd (process_files env (xs @ ys) ?c2)))"
    by blast
  moreover from Cons.prems have "fst (connection_commit env x (fst (process_json_file env x c))) = None"
    by (simp add: connection_commit_def Let_def)
  ultimately show ?case
    by (auto simp: Let_def case_prod_beta)
qed

lemma skipped_file_logged:
  assumes "connect_ok env" and "\<not> is_dir env bad"
    and "\<forall>f \<in> set (expand_files env pre). \<not> commit_fault env f"
    and "\<And>c. snd (process_json_file env bad c) = [line]"
  shows "line \<in> set (imp_log (import_main env (pre @ bad # post) table))"
proof -
  have e: "expand_files env (pre @ bad # post) = expand_files env pre @ bad # expand_files env post"
    using assms(2) by (simp add: expand_files_append)
  from process_files_reaches [OF assms(3), of "bad # expand_files env post" "connect table"]
  obtain c' where "set (snd (snd (process_files env (bad # expand_files env post) c')))
    \<subseteq> set (snd (snd (process_files env (expand_files env (pre @ bad # post)) (connect table))))"
    by (auto simp: e)
  moreover have "line \<in> set (snd (snd (process_files env (bad # expand_files env post) c')))"
    using assms(4) [of c'] by (auto simp: Let_def case_prod_beta split: option.splits)
  ultimately show ?thesis
    using assms(1) by (auto simp: import_main_def Let_def case_prod_beta split: option.splits)
qed

lemma invalid_json_file:
  "file_content env bad = Invalid_JSON \<Longrightarrow>
     process_json_file env bad c = (c, [(ERROR, Error_parsing_JSON_file bad)])
     \<and> file_rows env bad = []"
  by (simp add: process_json_file_def file_rows_def file_params_def file_entries_def)

lemma unreadable_file:
  "file_content env bad = Unreadable \<Longrightarrow>
     process_json_file env bad c = (c, [(ERROR, Error_processing_file bad)])
     \<and> file_rows env bad = []"
  by (simp add: process_json_file_def file_rows_def file_params_def file_entries_def)

subsection \<open>The example run\<close>

lemma two_weeks_facts:
  "connect_ok two_weeks" "\<not> is_dir two_weeks p" "\<not> commit_fault two_weeks p"
  "file_content two_weeks ''w1.json'' = Parsed week1"
  "file_content two_weeks ''w2.json'' = Parsed week2"
  "file_content two_weeks ''broken.json'' = Invalid_JSON"
  "file_content two_weeks ''missing.json'' = Unreadable"
  by (simp_all add: two_weeks_def quiet_env_def)

lemma two_weeks_table:
  "imp_table (import_main two_weeks [''w1.json'', ''w2.json''] []) =
     [(Some ''Waterloo'', Some ''Abba''), (Some ''One More Time'', Some ''Daft Punk''),
      (Some ''Dancing Queen'', Some ''Abba'')]"
  by (simp add: import_table_char two_weeks_def quiet_env_def file_rows_def file_params_def
      file_entries_def week1_def week2_def dict_get_def add_row_eq)

lemma two_weeks_direct:
  "imp_table (import_main two_weeks [''w1.json'', ''w2.json''] []) =
     [(Some ''Waterloo'', Some ''Abba''), (Some ''One More Time'', Some ''Daft Punk''),
      (Some ''Dancing Queen'', Some ''Abba'')]"
  by code_simp

subsection \<open>The claims about the importer\<close>

text \<open>
  Claim C1. A table without two equal rows has none after a run, whatever the files hold
  and whatever fails. When the connection is made, every file that parses is of the input
  format, the server refuses no row for a reason of its own and every commit succeeds, the
  rows after the run are those before it and the pairs of song and artist of the files'
  entries: one row for each distinct pair, however often the files repeat it.
\<close>

theorem deduplication:
  assumes "distinct table"
  shows "distinct (imp_table (import_main env files table))
    \<and> (connect_ok env
        \<and> (\<forall>f \<in> set (expand_files env files).
              well_formed (file_content env f) \<and> \<not> commit_fault env f)
        \<and> (\<forall>r. insert_fault env r = None) \<longrightarrow>
        set (imp_table (import_main env files table)) =
          set table \<union> (\<Union>f \<in> set (expand_files env files). set (pairs_in (file_content env f)))
        \<and> (\<forall>p. count_list (imp_table (import_main env files table)) p =
              (if p \<in> set table
                    \<union> (\<Union>f \<in> set (expand_files env files). set (pairs_in (file_content env f)))
               then 1 else 0)))"
proof -
  have d: "distinct (imp_table (import_main env files table))"
    using assms by (simp add: import_table_char foldl_add_distinct)
  have "set (imp_table (import_main env files table)) =
      set table \<union> (\<Union>f \<in> set (expand_files env files). set (pairs_in (file_content env f)))"
    if c: "connect_ok env"
      and w: "\<forall>f \<in> set (expand_files env files).
        well_formed (file_content env f) \<and> \<not> commit_fault env f"
      and n: "\<forall>r. insert_fault env r = None"
  proof -
    from w have t: "takeWhile (\<lambda>f. \<not> commit_fault env f) (expand_files env files)
        = expand_files env files"
      by (simp add: takeWhile_eq_all_conv)
    from w have "\<forall>f \<in> set (expand_files env files). file_rows env f = pairs_in (file_content env f)"
      by (simp add: well_formed_rows)
    then show ?thesis
      by (simp add: import_table_char c t foldl_add_set [OF n])
  qed
  with d distinct_count_list [OF d] show ?thesis by simp
qed

theorem deduplication_witness:
  "distinct (imp_table (import_main two_weeks [''w1.json'', ''w2.json''] []))
   \<and> imp_table (import_main two_weeks [''w1.json'', ''w2.json''] []) =
       [(Some ''Waterloo'', Some ''Abba''), (Some ''One More Time'', Some ''Daft Punk''),
        (Some ''Dancing Queen'', Some ''Abba'')]
   \<and> set (imp_table (import_main two_weeks [''w1.json'', ''w2.json''] [])) =
       set (pairs_in (Parsed week1)) \<union> set (pairs_in (Parsed week2))
   \<and> count_list (imp_table (import_main two_weeks [''w1.json'', ''w2.json''] []))
        (Some ''Waterloo'', Some ''Abba'') = 1"
proof -
  have h: "distinct ([] :: row list)" by simp
  have e: "expand_files two_weeks [''w1.json'', ''w2.json''] = [''w1.json'', ''w2.json'']"
    by (simp add: two_weeks_def quiet_env_def)
  have c: "file_content two_weeks ''w1.json'' = Parsed week1"
    "file_content two_weeks ''w2.json'' = Parsed week2"
    "connect_ok two_weeks" "\<forall>r. insert_fault two_weeks r = None"
    "\<forall>f. \<not> commit_fault two_weeks f" "\<forall>f. \<not> is_dir two_weeks f"
    by (simp_all add: two_weeks_def quiet_env_def)
  have w: "well_formed (Parsed week1)" "well_formed (Parsed week2)"
    by (simp_all add: well_formed_def week1_def week2_def dict_get_def)
  show ?thesis
    using deduplication [OF h, of two_weeks "[''w1.json'', ''w2.json'']"] two_weeks_table
    by (simp add: e c w)
qed

text \<open>
  Claim C2. A second run on the same arguments in the same environment leaves the table
  as the first run left it, and its exit status is 0 when the connection is made. A line
  about a skipped duplicate is logged at the level DEBUG, and when every commit succeeds
  the second run inserts nothing: no line reports an inserted record. When moreover every
  file parses and is of the input format and the server refuses no row for a reason of its
  own, the log of the second run is, after the line of the connection and file by file,
  the line that names the file and one line at the level DEBUG for each entry of the file
  that reports its pair as a skipped duplicate, and then the line of completion; no line
  of it is at the level ERROR. The entries of such a file are as many as its pairs, and
  the rows they stand for are its pairs.
\<close>

theorem importer_idempotent:
  "imp_table (import_main env files (imp_table (import_main env files table)))
     = imp_table (import_main env files table)
   \<and> imp_exit (import_main env files (imp_table (import_main env files table)))
     = (if connect_ok env then 0 else 1)
   \<and> ((lv, Duplicate_entry_skipped s a)
        \<in> set (imp_log (import_main env files (imp_table (import_main env files table))))
       \<longrightarrow> lv = DEBUG)
   \<and> (connect_ok env \<and> (\<forall>f \<in> set (expand_files env files). \<not> commit_fault env f) \<longrightarrow>
       (lv, Inserted s a)
         \<notin> set (imp_log (import_main env files (imp_table (import_main env files table)))))
   \<and> (connect_ok env
       \<and> (\<forall>f \<in> set (expand_files env files).
             in_format (file_content env f) \<and> \<not> commit_fault env f)
       \<and> (\<forall>r. insert_fault env r = None) \<longrightarrow>
       imp_log (import_main env files (imp_table (import_main env files table))) =
         (INFO, Connected)
           # concat (map (\<lambda>f. (INFO, Processing_file f)
                              # map (\<lambda>(song, artist). (DEBUG, Duplicate_entry_skipped song artist))
                                  (file_params env f))
               (expand_files env files))
           @ [(INFO, Processing_completed)]
       \<and> (\<forall>m. (ERROR, m)
             \<notin> set (imp_log (import_main env files (imp_table (import_main env files table)))))
       \<and> (\<forall>f \<in> set (expand_files env files).
             param_rows env (file_params env f) = pairs_in (file_content env f)
             \<and> length (file_params env f) = length (pairs_in (file_content env f))))"
proof -
  let ?t1 = "imp_table (import_main env files table)"
  let ?log = "imp_log (import_main env files ?t1)"
  have 1: "imp_table (import_main env files ?t1) = ?t1"
    by (simp add: import_table_char foldl_add_idem)
  have 4: "(lv, Inserted s a) \<notin> set ?log"
    if c: "connect_ok env" and n: "\<forall>f \<in> set (expand_files env files). \<not> commit_fault env f"
  proof -
    from n have t: "takeWhile (\<lambda>f. \<not> commit_fault env f) (expand_files env files)
        = expand_files env files"
      by (simp add: takeWhile_eq_all_conv)
    have "?t1 = foldl (add_row env) table
        (concat (map (file_rows env) (expand_files env files)))"
      by (simp add: import_table_char c t)
    then have "\<forall>r \<in> set (concat (map (file_rows env) (expand_files env files))).
        insert_fault env r \<noteq> None \<or> r \<in> set ?t1"
      using foldl_add_covered [of "concat (map (file_rows env) (expand_files env files))" env table]
      by simp
    then show ?thesis by (rule import_main_no_insert)
  qed
  have dl: "duplicate_line = (\<lambda>(song, artist). (DEBUG, Duplicate_entry_skipped song artist))"
    by (auto simp: duplicate_line_def fun_eq_iff)
  have 5: "?log =
        (INFO, Connected)
           # concat (map (\<lambda>f. (INFO, Processing_file f)
                              # map (\<lambda>(song, artist). (DEBUG, Duplicate_entry_skipped song artist))
                                  (file_params env f))
               (expand_files env files))
           @ [(INFO, Processing_completed)]
      \<and> (\<forall>m. (ERROR, m) \<notin> set ?log)
      \<and> (\<forall>f \<in> set (expand_files env files).
            param_rows env (file_params env f) = pairs_in (file_content env f)
            \<and> length (file_params env f) = length (pairs_in (file_content env f)))"
    if c: "connect_ok env"
      and w: "\<forall>f \<in> set (expand_files env files).
        in_format (file_content env f) \<and> \<not> commit_fault env f"
      and n: "\<forall>r. insert_fault env r = None"
  proof -
    note l = second_run_log [OF c w n, of table]
    have e: "\<forall>m. (ERROR, m) \<notin> set ?log"
      unfolding l using duplicate_lines_no_error [of _ env "expand_files env files"] by blast
    have r: "\<forall>f \<in> set (expand_files env files).
        param_rows env (file_params env f) = pairs_in (file_content env f)
        \<and> length (file_params env f) = length (pairs_in (file_content env f))"
      using w well_formed_rows in_format_well_formed in_format_length
      by (auto simp: file_rows_def)
    from l e r show ?thesis
      unfolding dl by blast
  qed
  from 1 4 5 import_exit [of env files ?t1] import_main_log [of lv s a env files ?t1]
  show ?thesis by blast
qed

theorem importer_idempotent_witness:
  "imp_table (import_main two_weeks [''w1.json'', ''w2.json'']
      (imp_table (import_main two_weeks [''w1.json'', ''w2.json''] []))) =
     [(Some ''Waterloo'', Some ''Abba''), (Some ''One More Time'', Some ''Daft Punk''),
      (Some ''Dancing Queen'', Some ''Abba'')]
   \<and> imp_exit (import_main two_weeks [''w1.json'', ''w2.json'']
        (imp_table (import_main two_weeks [''w1.json'', ''w2.json''] []))) = 0
   \<and> (DEBUG, Duplicate_entry_skipped (Some (JStr ''Waterloo'')) (Some (JStr ''Abba'')))
        \<in> set (imp_log (import_main two_weeks [''w1.json'', ''w2.json'']
             (imp_table (import_main two_weeks [''w1.json'', ''w2.json''] []))))
   \<and> (DEBUG, Inserted (Some (JStr ''Waterloo'')) (Some (JStr ''Abba'')))
        \<notin> set (imp_log (import_main two_weeks [''w1.json'', ''w2.json'']
             (imp_table (import_main two_weeks [''w1.json'', ''w2.json''] []))))
   \<and> imp_log (import_main two_weeks [''w1.json'', ''w2.json'']
        (imp_table (import_main two_weeks [''w1.json'', ''w2.json''] []))) =
       [(INFO, Connected),
        (INFO, Processing_file ''w1.json''),
        (DEBUG, Duplicate_entry_skipped (Some (JStr ''Waterloo'')) (Some (JStr ''Abba''))),
        (DEBUG, Duplicate_entry_skipped (Some (JStr ''One More Time'')) (Some (JStr ''Daft Punk''))),
        (DEBUG, Duplicate_entry_skipped (Some (JStr ''Waterloo'')) (Some (JStr ''Abba''))),
        (INFO, Processing_file ''w2.json''),
        (DEBUG, Duplicate_entry_skipped (Some (JStr ''One More Time'')) (Some (JStr ''Daft Punk''))),
        (DEBUG, Duplicate_entry_skipped (Some (JStr ''Dancing Queen'')) (Some (JStr ''Abba''))),
        (INFO, Processing_completed)]"
proof -
  let ?fs = "[''w1.json'', ''w2.json'']"
  let ?second = "import_main two_weeks ?fs (imp_table (import_main two_weeks ?fs []))"
  note th = importer_idempotent [of two_weeks ?fs "[]" DEBUG
      "Some (JStr ''Waterloo'')" "Some (JStr ''Abba'')"]
  have e: "expand_files two_weeks ?fs = ?fs"
    by (simp add: two_weeks_facts)
  have f: "in_format (Parsed week1)" "in_format (Parsed week2)"
    "\<forall>r. insert_fault two_weeks r = None"
    by (simp_all add: in_format_def week1_def week2_def dict_get_def two_weeks_def quiet_env_def)
  have p: "file_params two_weeks ''w1.json'' =
      [(Some (JStr ''Waterloo''), Some (JStr ''Abba'')),
       (Some (JStr ''One More Time''), Some (JStr ''Daft Punk'')),
       (Some (JStr ''Waterloo''), Some (JStr ''Abba''))]"
    "file_params two_weeks ''w2.json'' =
      [(Some (JStr ''One More Time''), Some (JStr ''Daft Punk'')),
       (Some (JStr ''Dancing Queen''), Some (JStr ''Abba''))]"
    by (simp_all add: file_params_def file_entries_def two_weeks_facts week1_def week2_def
        dict_get_def)
  have hyp: "connect_ok two_weeks
      \<and> (\<forall>f \<in> set (expand_files two_weeks ?fs).
            in_format (file_content two_weeks f) \<and> \<not> commit_fault two_weeks f)
      \<and> (\<forall>r. insert_fault two_weeks r = None)"
    unfolding e by (simp add: two_weeks_facts f)
  from th have tab: "imp_table ?second = imp_table (import_main two_weeks ?fs [])"
    and ex: "imp_exit ?second = (if connect_ok two_weeks then 0 else 1)"
    by blast+
  from th hyp have "imp_log ?second =
      (INFO, Connected)
        # concat (map (\<lambda>f. (INFO, Processing_file f)
                           # map (\<lambda>(song, artist). (DEBUG, Duplicate_entry_skipped song artist))
                               (file_params two_weeks f))
            (expand_files two_weeks ?fs))
        @ [(INFO, Processing_completed)]"
    by blast
  then have log: "imp_log ?second =
       [(INFO, Connected),
        (INFO, Processing_file ''w1.json''),
        (DEBUG, Duplicate_entry_skipped (Some (JStr ''Waterloo'')) (Some (JStr ''Abba''))),
        (DEBUG, Duplicate_entry_skipped (Some (JStr ''One More Time'')) (Some (JStr ''Daft Punk''))),
        (DEBUG, Duplicate_entry_skipped (Some (JStr ''Waterloo'')) (Some (JStr ''Abba''))),
        (INFO, Processing_file ''w2.json''),
        (DEBUG, Duplicate_entry_skipped (Some (JStr ''One More Time'')) (Some (JStr ''Daft Punk''))),
        (DEBUG, Duplicate_entry_skipped (Some (JStr ''Dancing Queen'')) (Some (JStr ''Abba''))),
        (INFO, Processing_completed)]"
    unfolding e by (simp add: p)
  from tab have tab': "imp_table ?second =
     [(Some ''Waterloo'', Some ''Abba''), (Some ''One More Time'', Some ''Daft Punk''),
      (Some ''Dancing Queen'', Some ''Abba'')]"
    by (simp only: two_weeks_table)
  from ex have ex': "imp_exit ?second = 0"
    by (simp add: two_weeks_facts)
  have m: "(DEBUG, Duplicate_entry_skipped (Some (JStr ''Waterloo'')) (Some (JStr ''Abba'')))
        \<in> set (imp_log ?second)"
    "(DEBUG, Inserted (Some (JStr ''Waterloo'')) (Some (JStr ''Abba'')))
        \<notin> set (imp_log ?second)"
    unfolding log by simp_all
  from tab' ex' m log show ?thesis
    by blast
qed

text \<open>
  Claim C7. A file that is not JSON leaves the connection as it is and is logged with one
  line at the level ERROR. The table after a run over a list of files that contains it is
  the table after the run over the list without it, so the files before and after it are
  processed as if it were not there (the commit after it is taken not to fail); the line
  is in the log of the run when the commits before it succeed. The exit status is 0
  whenever the connection is made, whatever the files hold.
\<close>

theorem parse_fault_contained:
  assumes "file_content env bad = Invalid_JSON"
  shows "process_json_file env bad c = (c, [(ERROR, Error_parsing_JSON_file bad)])
    \<and> (\<not> is_dir env bad \<and> \<not> commit_fault env bad \<longrightarrow>
        imp_table (import_main env (pre @ bad # post) table) =
          imp_table (import_main env (pre @ post) table))
    \<and> (connect_ok env \<and> \<not> is_dir env bad
        \<and> (\<forall>f \<in> set (expand_files env pre). \<not> commit_fault env f) \<longrightarrow>
        (ERROR, Error_parsing_JSON_file bad)
          \<in> set (imp_log (import_main env (pre @ bad # post) table)))
    \<and> imp_exit (import_main env files table) = (if connect_ok env then 0 else 1)"
proof -
  note f = invalid_json_file [OF assms]
  have "\<And>c. snd (process_json_file env bad c) = [(ERROR, Error_parsing_JSON_file bad)]"
    by (simp add: f)
  from skipped_file_logged [OF _ _ _ this, of pre post table]
    skipped_file_table [of env bad pre post table] f [of c] import_exit [of env files table]
  show ?thesis by blast
qed

theorem parse_fault_contained_witness:
  "file_content two_weeks ''broken.json'' = Invalid_JSON
   \<and> imp_table (import_main two_weeks [''w1.json'', ''broken.json'', ''w2.json''] []) =
       [(Some ''Waterloo'', Some ''Abba''), (Some ''One More Time'', Some ''Daft Punk''),
        (Some ''Dancing Queen'', Some ''Abba'')]
   \<and> (ERROR, Error_parsing_JSON_file ''broken.json'')
        \<in> set (imp_log (import_main two_weeks [''w1.json'', ''broken.json'', ''w2.json''] []))
   \<and> imp_exit (import_main two_weeks [''w1.json'', ''broken.json'', ''w2.json''] []) = 0"
proof -
  have h: "file_content two_weeks ''broken.json'' = Invalid_JSON"
    by (rule two_weeks_facts)
  show ?thesis
    using h parse_fault_contained [OF h, of "connect []" "[''w1.json'']" "[''w2.json'']" "[]"
        "[''w1.json'', ''broken.json'', ''w2.json'']"]
    by (simp add: two_weeks_table two_weeks_facts)
qed

text \<open>
  Claim C8. When the connection is made and no commit fails, the calls the run makes are,
  file by file in the order of the list, the INSERT statements of the file followed by one
  commit; for a file whose \<open>data\<close> is an array of objects these are the statements of
  all its entries. When the commit after a file fails and those before it succeeded, the
  table after the run is the table as committed by the files before it, the last call is
  the rollback, and the exit status is 0.
\<close>

theorem transaction_granularity:
  "(connect_ok env \<and> (\<forall>f \<in> set (expand_files env files). \<not> commit_fault env f) \<longrightarrow>
      imp_ops (import_main env files table) =
        concat (map (\<lambda>f. map (\<lambda>(song, artist). Execute song artist) (file_params env f) @ [Commit])
          (expand_files env files)))
   \<and> (file_content env g = Parsed (JObj members)
       \<and> dict_get members ''data'' = Some (JArr (map JObj entries)) \<longrightarrow>
      file_params env g = map (\<lambda>e. (dict_get e ''song'', dict_get e ''artist'')) entries)
   \<and> (connect_ok env \<and> expand_files env files = pre @ f # post
       \<and> (\<forall>p \<in> set pre. \<not> commit_fault env p) \<and> commit_fault env f \<longrightarrow>
      imp_table (import_main env files table) =
        committed (fst (snd (process_files env pre (connect table))))
      \<and> last (imp_ops (import_main env files table)) = Rollback
      \<and> imp_exit (import_main env files table) = 0)"
  using import_ops_no_fault [of env files table] file_params_objects [of env g members entries]
    import_commit_fault [of env files pre f post table]
  by blast

theorem transaction_granularity_witness:
  "imp_ops (import_main two_weeks [''w1.json'', ''w2.json''] []) =
     [Execute (Some (JStr ''Waterloo'')) (Some (JStr ''Abba'')),
      Execute (Some (JStr ''One More Time'')) (Some (JStr ''Daft Punk'')),
      Execute (Some (JStr ''Waterloo'')) (Some (JStr ''Abba'')),
      Commit,
      Execute (Some (JStr ''One More Time'')) (Some (JStr ''Daft Punk'')),
      Execute (Some (JStr ''Dancing Queen'')) (Some (JStr ''Abba'')),
      Commit]
   \<and> file_params two_weeks ''w2.json'' =
       [(Some (JStr ''One More Time''), Some (JStr ''Daft Punk'')),
        (Some (JStr ''Dancing Queen''), Some (JStr ''Abba''))]
   \<and> imp_table (import_main failing_commit [''w1.json'', ''w2.json''] []) =
       [(Some ''Waterloo'', Some ''Abba''), (Some ''One More Time'', Some ''Daft Punk'')]
   \<and> last (imp_ops (import_main failing_commit [''w1.json'', ''w2.json''] [])) = Rollback
   \<and> imp_exit (import_main failing_commit [''w1.json'', ''w2.json''] []) = 0"
proof -
  have e: "expand_files two_weeks [''w1.json'', ''w2.json''] = [''w1.json'', ''w2.json'']"
    "expand_files failing_commit [''w1.json'', ''w2.json''] = [''w1.json''] @ ''w2.json'' # []"
    by (simp_all add: failing_commit_def two_weeks_facts)
  have p: "file_params two_weeks ''w1.json'' =
      [(Some (JStr ''Waterloo''), Some (JStr ''Abba'')),
       (Some (JStr ''One More Time''), Some (JStr ''Daft Punk'')),
       (Some (JStr ''Waterloo''), Some (JStr ''Abba''))]"
    "file_params two_weeks ''w2.json'' =
      [(Some (JStr ''One More Time''), Some (JStr ''Daft Punk'')),
       (Some (JStr ''Dancing Queen''), Some (JStr ''Abba''))]"
    by (simp_all add: file_params_def file_entries_def two_weeks_facts week1_def week2_def
        dict_get_def)
  have f: "connect_ok failing_commit" "\<not> commit_fault failing_commit ''w1.json''"
    "commit_fault failing_commit ''w2.json''"
    by (simp_all add: failing_commit_def two_weeks_facts)
  have c: "committed (fst (snd (process_files failing_commit [''w1.json''] (connect [])))) =
      [(Some ''Waterloo'', Some ''Abba''), (Some ''One More Time'', Some ''Daft Punk'')]"
    by code_simp
  show ?thesis
    using transaction_granularity [of two_weeks "[''w1.json'', ''w2.json'']" "[]" "''w2.json''"
        "[(''data'', JArr
           [JObj [(''song'', JStr ''One More Time''), (''artist'', JStr ''Daft Punk'')],
            JObj [(''song'', JStr ''Dancing Queen''), (''artist'', JStr ''Abba'')]])]"
        "[[(''song'', JStr ''One More Time''), (''artist'', JStr ''Daft Punk'')],
          [(''song'', JStr ''Dancing Queen''), (''artist'', JStr ''Abba'')]]"]
      transaction_granularity [of failing_commit "[''w1.json'', ''w2.json'']" "[]" _ _ _
        "[''w1.json'']" "''w2.json''" "[]"]
    by (simp add: e p f c two_weeks_facts week2_def dict_get_def
        del: process_files.simps expand_files.simps)
qed

text \<open>
  Claim C10. A path that cannot be opened or read is handled as a file that does not
  parse is: the connection stays as it is, one line is logged at the level ERROR, the
  table after a run over a list that contains the path is the table after the run over
  the list without it, and the exit status is 0 whenever the connection is made.
\<close>

theorem missing_file_contained:
  assumes "file_content env missing = Unreadable"
  shows "process_json_file env missing c = (c, [(ERROR, Error_processing_file missing)])
    \<and> (\<not> is_dir env missing \<and> \<not> commit_fault env missing \<longrightarrow>
        imp_table (import_main env (pre @ missing # post) table) =
          imp_table (import_main env (pre @ post) table))
    \<and> (connect_ok env \<and> \<not> is_dir env missing
        \<and> (\<forall>f \<in> set (expand_files env pre). \<not> commit_fault env f) \<longrightarrow>
        (ERROR, Error_processing_file missing)
          \<in> set (imp_log (import_main env (pre @ missing # post) table)))
    \<and> imp_exit (import_main env files table) = (if connect_ok env then 0 else 1)"
proof -
  note f = unreadable_file [OF assms]
  have "\<And>c. snd (process_json_file env missing c) = [(ERROR, Error_processing_file missing)]"
    by (simp add: f)
  from skipped_file_logged [OF _ _ _ this, of pre post table]
    skipped_file_table [of env missing pre post table] f [of c] import_exit [of env files table]
  show ?thesis by blast
qed

theorem missing_file_contained_witness:
  "file_content two_weeks ''missing.json'' = Unreadable
   \<and> imp_table (import_main two_weeks [''w1.json'', ''missing.json'', ''w2.json''] []) =
       [(Some ''Waterloo'', Some ''Abba''), (Some ''One More Time'', Some ''Daft Punk''),
        (Some ''Dancing Queen'', Some ''Abba'')]
   \<and> (ERROR, Error_processing_file ''missing.json'')
        \<in> set (imp_log (import_main two_weeks [''w1.json'', ''missing.json'', ''w2.json''] []))
   \<and> imp_exit (import_main two_weeks [''w1.json'', ''missing.json'', ''w2.json''] []) = 0"
proof -
  have h: "file_content two_weeks ''missing.json'' = Unreadable"
    by (rule two_weeks_facts)
  show ?thesis
    using h missing_file_contained [OF h, of "connect []" "[''w1.json'']" "[''w2.json'']" "[]"
        "[''w1.json'', ''missing.json'', ''w2.json'']"]
    by (simp add: two_weeks_table two_weeks_facts)
qed

end
